theory Spec2Isabelle
  imports Main "HOL-Library.Word" "HOL-Library.Sublist"
begin

section \<open>Data model\<close>

text \<open>
  The converter (\<^verbatim>\<open>tools/sprite_converter.py\<close>) and the upload client's validator
  (\<^verbatim>\<open>tools/upload_animation.py\<close>) are embedded as HOL functions. Bytes are 8-bit words,
  Python integers are \<open>int\<close>, exceptions are values of \<open>error\<close>.

  The spec's error kinds are raised by the code as \<^verbatim>\<open>ValueError\<close>s:
  \<open>EmptyInput\<close> is \<^verbatim>\<open>ValueError("No image files found in ...")\<close>,
  \<open>DimensionMismatch idx size\<close> is \<^verbatim>\<open>ValueError("Frame idx has different size: size")\<close>.
  \<open>IndexError\<close> and \<open>StructError\<close> are Python's \<^verbatim>\<open>IndexError\<close> and
  \<^verbatim>\<open>struct.error\<close>, \<open>IOError\<close> is a failed \<^verbatim>\<open>open\<close> or \<^verbatim>\<open>write\<close>, and
  \<open>LibraryError\<close> is any exception raised inside the imaging library.
\<close>

type_synonym byte = "8 word"

datatype error =
    EmptyInput
  | DimensionMismatch nat "nat \<times> nat"
  | IndexError
  | StructError
  | IOError
  | LibraryError

text \<open>
  An image of the imaging library: its \<^verbatim>\<open>size\<close> (width, height) and its pixels, read
  by column \<open>x\<close> and row \<open>y\<close>. Only the pixels inside the size are part of the image.
  A mode-\<^verbatim>\<open>RGB\<close> image has three bytes per pixel; a mode-\<^verbatim>\<open>P\<close> image has one palette
  index per pixel and carries the palette that \<^verbatim>\<open>getpalette()\<close> returns.
\<close>

type_synonym rgb = "byte \<times> byte \<times> byte"

record 'p image =
  img_size :: "nat \<times> nat"
  pix :: "nat \<Rightarrow> nat \<Rightarrow> 'p"

type_synonym rgb_image = "rgb image"

record p_image = "byte image" +
  getpalette :: "byte list"

text \<open>
  \<^verbatim>\<open>frame.tobytes()\<close> of a mode-\<^verbatim>\<open>P\<close> image: one byte per pixel, row after row.
\<close>

definition tobytes :: "p_image \<Rightarrow> byte list" where
  "tobytes im =
     concat (map (\<lambda>y. map (\<lambda>x. pix im x y) [0..<fst (img_size im)]) [0..<snd (img_size im)])"

text \<open>
  \<^verbatim>\<open>Image.new('RGB', (w, h))\<close>: a black image; the library raises on a negative size.
  \<^verbatim>\<open>dst.paste(src, (ox, 0))\<close>: the pixels of \<open>src\<close> replace those of \<open>dst\<close> in the box
  that starts at column \<open>ox\<close>; the size of \<open>dst\<close> does not change.
\<close>

definition Image_new :: "int \<Rightarrow> int \<Rightarrow> error + rgb_image" where
  "Image_new w h =
     (if w < 0 \<or> h < 0 then Inl LibraryError
      else Inr \<lparr>img_size = (nat w, nat h), pix = (\<lambda>x y. (0, 0, 0))\<rparr>)"

definition paste :: "rgb_image \<Rightarrow> rgb_image \<Rightarrow> nat \<Rightarrow> rgb_image" where
  "paste dst src ox =
     dst\<lparr>pix := (\<lambda>x y.
        if ox \<le> x \<and> x < ox + fst (img_size src) \<and> y < snd (img_size src)
        then pix src (x - ox) y else pix dst x y)\<rparr>"

text \<open>
  The calls into the imaging library whose results the converter only passes on.
  Each may raise (\<open>None\<close>). An image returned by the library has the size the library
  documents (that of the receiver for \<^verbatim>\<open>quantize\<close>, the requested one for \<^verbatim>\<open>resize\<close>),
  so only the pixel data is left open:
  \<^item> \<open>quantize\<close>: \<^verbatim>\<open>combined.quantize(colors=256, method=2)\<close>, giving the palette data
    and the index of every pixel;
  \<^item> \<open>quantize_to\<close>: \<^verbatim>\<open>frame.quantize(palette=quantized)\<close>;
  \<^item> \<open>resize\<close>: \<^verbatim>\<open>frame.resize((w, h), LANCZOS)\<close>;
  \<^item> \<open>render\<close>: the body of one iteration of a test-pattern loop (new canvas,
    drawing, downscale to \<^verbatim>\<open>(width, height)\<close>), for pattern, width, height, frame count
    and frame number.
\<close>

datatype pattern = Circle | Bounce | Spinner | Progress | Checkmark | Pulse

record pil =
  quantize :: "rgb_image \<Rightarrow> (byte list \<times> (nat \<Rightarrow> nat \<Rightarrow> byte)) option"
  quantize_to :: "p_image \<Rightarrow> rgb_image \<Rightarrow> (nat \<Rightarrow> nat \<Rightarrow> byte) option"
  resize :: "rgb_image \<Rightarrow> int \<Rightarrow> int \<Rightarrow> (nat \<Rightarrow> nat \<Rightarrow> rgb) option"
  render :: "pattern \<Rightarrow> int \<Rightarrow> int \<Rightarrow> int \<Rightarrow> nat \<Rightarrow> (nat \<Rightarrow> nat \<Rightarrow> rgb) option"

text \<open>
  \<^verbatim>\<open>class SpriteConverter\<close>. \<open>frames\<close> holds RGB images after loading and indexed
  images after \<^verbatim>\<open>generate_palette\<close>, hence the type parameter.
\<close>

type_synonym palette_entry = "byte \<times> byte \<times> byte \<times> byte"

record 'f converter =
  frames :: "'f list"
  width :: int
  height :: int
  fps :: int
  color_format :: int
  compression :: int
  palette :: "palette_entry list"

definition SPRITE_MAGIC :: int where
  "SPRITE_MAGIC = 0x444F4B49"

definition COLOR_FORMAT_INDEXED_8BIT :: int where
  "COLOR_FORMAT_INDEXED_8BIT = 0"

definition COMPRESSION_NONE :: int where
  "COMPRESSION_NONE = 0"

definition init :: "'f converter" where
  "init = \<lparr>frames = [], width = 0, height = 0, fps = 30,
            color_format = COLOR_FORMAT_INDEXED_8BIT, compression = COMPRESSION_NONE,
            palette = []\<rparr>"

section \<open>Loading frames\<close>

text \<open>
  \<^verbatim>\<open>load_from_folder\<close>. \<open>image_files\<close> is the sorted list of the folder's image files,
  each given by the RGB image that \<^verbatim>\<open>Image.open\<close> and \<^verbatim>\<open>convert('RGB')\<close> yield for it.
  The loop is \<open>load_loop\<close>, with \<open>idx\<close> the counter of \<^verbatim>\<open>enumerate\<close>.
\<close>

fun load_loop :: "nat \<Rightarrow> rgb_image list \<Rightarrow> rgb_image converter \<Rightarrow> error + rgb_image converter" where
  "load_loop idx [] c = Inr c"
| "load_loop idx (img # rest) c =
     (if idx = 0 then
        load_loop (Suc idx) rest
          (c\<lparr>width := int (fst (img_size img)), height := int (snd (img_size img)),
             frames := frames c @ [img]\<rparr>)
      else if (int (fst (img_size img)), int (snd (img_size img))) \<noteq> (width c, height c) then
        Inl (DimensionMismatch idx (img_size img))
      else load_loop (Suc idx) rest (c\<lparr>frames := frames c @ [img]\<rparr>))"

definition load_from_folder :: "rgb_image list \<Rightarrow> rgb_image converter \<Rightarrow> error + rgb_image converter" where
  "load_from_folder image_files c =
     (if image_files = [] then Inl EmptyInput else load_loop 0 image_files c)"

text \<open>
  An opened GIF: its size, the \<^verbatim>\<open>duration\<close> entry of \<^verbatim>\<open>gif.info\<close> (milliseconds per
  frame, absent for some files) and the pixels of its frames after \<^verbatim>\<open>convert('RGB')\<close>;
  every frame copied from the GIF has the GIF's size.

  \<open>gif_fps\<close> is \<^verbatim>\<open>int(1000 / duration)\<close> with the default duration 100. A duration of 0
  raises \<^verbatim>\<open>ZeroDivisionError\<close> (\<open>None\<close>), which the bare \<^verbatim>\<open>except: pass\<close> swallows.
  For a positive integer duration the truncated float quotient is the integer quotient.
\<close>

record gif_file =
  gif_size :: "nat \<times> nat"
  gif_duration :: "nat option"
  gif_frames :: "(nat \<Rightarrow> nat \<Rightarrow> rgb) list"

definition gif_fps :: "gif_file \<Rightarrow> int option" where
  "gif_fps gif =
     (let duration = (case gif_duration gif of None \<Rightarrow> 100 | Some d \<Rightarrow> d)
      in if duration = 0 then None else Some (int (1000 div duration)))"

text \<open>\<^verbatim>\<open>target_width and target_height\<close>: both given and both non-zero.\<close>

definition truthy :: "int option \<Rightarrow> bool" where
  "truthy v = (case v of None \<Rightarrow> False | Some n \<Rightarrow> n \<noteq> 0)"

fun extract_frames :: "pil \<Rightarrow> gif_file \<Rightarrow> int option \<Rightarrow> int option \<Rightarrow>
    (nat \<Rightarrow> nat \<Rightarrow> rgb) list \<Rightarrow> error + rgb_image list" where
  "extract_frames lib gif tw th [] = Inr []"
| "extract_frames lib gif tw th (p # ps) =
     (let frame = \<lparr>img_size = gif_size gif, pix = p\<rparr> in
      case (if truthy tw \<and> truthy th then
              (case resize lib frame (the tw) (the th) of
                 None \<Rightarrow> Inl LibraryError
               | Some q \<Rightarrow> Inr \<lparr>img_size = (nat (the tw), nat (the th)), pix = q\<rparr>)
            else Inr frame) of
        Inl e \<Rightarrow> Inl e
      | Inr frame' \<Rightarrow>
          (case extract_frames lib gif tw th ps of
             Inl e \<Rightarrow> Inl e
           | Inr rest \<Rightarrow> Inr (frame' # rest)))"

definition load_from_gif :: "pil \<Rightarrow> gif_file \<Rightarrow> int option \<Rightarrow> int option \<Rightarrow>
    rgb_image converter \<Rightarrow> error + rgb_image converter" where
  "load_from_gif lib gif target_width target_height c =
     (let c1 = (if truthy target_width \<and> truthy target_height
                then c\<lparr>width := the target_width, height := the target_height\<rparr>
                else c\<lparr>width := int (fst (gif_size gif)), height := int (snd (gif_size gif))\<rparr>);
          c2 = (case gif_fps gif of
                  None \<Rightarrow> c1
                | Some g \<Rightarrow> if fps c1 = 30 then c1\<lparr>fps := g\<rparr> else c1)
      in case extract_frames lib gif target_width target_height (gif_frames gif) of
           Inl e \<Rightarrow> Inl e
         | Inr fs \<Rightarrow> Inr (c2\<lparr>frames := frames c2 @ fs\<rparr>))"

text \<open>
  \<^verbatim>\<open>generate_test_pattern\<close>: every branch runs its loop body for \<^verbatim>\<open>i in range(num_frames)\<close>
  and appends the rendered frame, so no frame is produced for a count of zero or less.
\<close>

fun render_all :: "pil \<Rightarrow> pattern \<Rightarrow> int \<Rightarrow> int \<Rightarrow> int \<Rightarrow> nat list \<Rightarrow> error + rgb_image list" where
  "render_all lib pat w h n [] = Inr []"
| "render_all lib pat w h n (i # is) =
     (case render lib pat w h n i of
        None \<Rightarrow> Inl LibraryError
      | Some p \<Rightarrow>
          (case render_all lib pat w h n is of
             Inl e \<Rightarrow> Inl e
           | Inr rest \<Rightarrow> Inr (\<lparr>img_size = (nat w, nat h), pix = p\<rparr> # rest)))"

definition generate_test_pattern :: "pil \<Rightarrow> int \<Rightarrow> int \<Rightarrow> int \<Rightarrow> pattern \<Rightarrow> error + rgb_image list" where
  "generate_test_pattern lib w h num_frames pattern_type =
     render_all lib pattern_type w h num_frames [0..<nat num_frames]"

section \<open>Palette generation and indexing\<close>

text \<open>
  \<^verbatim>\<open>generate_palette\<close>. All frames are pasted side by side on one canvas, frame \<open>idx\<close> at
  column \<^verbatim>\<open>idx * self.width\<close>; the canvas is quantized once; the palette is read from
  the first 768 values of \<^verbatim>\<open>getpalette()\<close>; every frame is then indexed against the
  quantized canvas.
\<close>

fun paste_frames :: "rgb_image \<Rightarrow> int \<Rightarrow> nat \<Rightarrow> rgb_image list \<Rightarrow> rgb_image" where
  "paste_frames combined w idx [] = combined"
| "paste_frames combined w idx (frame # rest) =
     paste_frames (paste combined frame (nat (int idx * w))) w (Suc idx) rest"

text \<open>\<^verbatim>\<open>xs[i]\<close> for \<open>i \<ge> 0\<close>: raises \<^verbatim>\<open>IndexError\<close> past the end.\<close>

definition getitem :: "'a list \<Rightarrow> nat \<Rightarrow> error + 'a" where
  "getitem xs i = (if i < length xs then Inr (xs ! i) else Inl IndexError)"

text \<open>The loop \<^verbatim>\<open>for i in range(256)\<close> that fills \<^verbatim>\<open>self.palette\<close>, over the list of \<open>i\<close>.\<close>

fun palette_loop :: "byte list \<Rightarrow> nat list \<Rightarrow> error + palette_entry list" where
  "palette_loop palette_data [] = Inr []"
| "palette_loop palette_data (i # is) =
     (case getitem palette_data (i * 3) of
        Inl e \<Rightarrow> Inl e
      | Inr r \<Rightarrow>
     (case getitem palette_data (i * 3 + 1) of
        Inl e \<Rightarrow> Inl e
      | Inr g \<Rightarrow>
     (case getitem palette_data (i * 3 + 2) of
        Inl e \<Rightarrow> Inl e
      | Inr b \<Rightarrow>
     (case palette_loop palette_data is of
        Inl e \<Rightarrow> Inl e
      | Inr rest \<Rightarrow> Inr ((r, g, b, 255) # rest)))))"

fun index_frames :: "pil \<Rightarrow> p_image \<Rightarrow> rgb_image list \<Rightarrow> error + p_image list" where
  "index_frames lib quantized [] = Inr []"
| "index_frames lib quantized (frame # rest) =
     (case quantize_to lib quantized frame of
        None \<Rightarrow> Inl LibraryError
      | Some ix \<Rightarrow>
          (case index_frames lib quantized rest of
             Inl e \<Rightarrow> Inl e
           | Inr others \<Rightarrow>
               Inr (\<lparr>img_size = img_size frame, pix = ix,
                      getpalette = getpalette quantized\<rparr> # others)))"

definition generate_palette :: "pil \<Rightarrow> rgb_image converter \<Rightarrow> error + p_image converter" where
  "generate_palette lib c =
     (case Image_new (width c * int (length (frames c))) (height c) of
        Inl e \<Rightarrow> Inl e
      | Inr canvas \<Rightarrow>
          (let combined = paste_frames canvas (width c) 0 (frames c) in
           case quantize lib combined of
             None \<Rightarrow> Inl LibraryError
           | Some (palette_data, ix) \<Rightarrow>
               (let quantized = \<lparr>img_size = img_size combined, pix = ix,
                                 getpalette = palette_data\<rparr> in
                case palette_loop palette_data [0..<256] of
                  Inl e \<Rightarrow> Inl e
                | Inr pal \<Rightarrow>
                    (case index_frames lib quantized (frames c) of
                       Inl e \<Rightarrow> Inl e
                     | Inr indexed_frames \<Rightarrow>
                         Inr \<lparr>frames = indexed_frames, width = width c, height = height c,
                              fps = fps c, color_format = color_format c,
                              compression = compression c, palette = pal\<rparr>))))"

section \<open>Serialization\<close>

text \<open>
  \<^verbatim>\<open>struct.pack\<close> with the little-endian formats \<^verbatim>\<open>I\<close>, \<^verbatim>\<open>H\<close> and \<^verbatim>\<open>B\<close>: a value outside
  the field's range raises \<^verbatim>\<open>struct.error\<close>.
\<close>

definition pack_I :: "int \<Rightarrow> error + byte list" where
  "pack_I n =
     (if 0 \<le> n \<and> n < 2 ^ 32
      then Inr [word_of_int n, word_of_int (n div 2 ^ 8), word_of_int (n div 2 ^ 16),
                word_of_int (n div 2 ^ 24)]
      else Inl StructError)"

definition pack_H :: "int \<Rightarrow> error + byte list" where
  "pack_H n =
     (if 0 \<le> n \<and> n < 2 ^ 16
      then Inr [word_of_int n, word_of_int (n div 2 ^ 8)]
      else Inl StructError)"

definition pack_B :: "int \<Rightarrow> error + byte list" where
  "pack_B n = (if 0 \<le> n \<and> n < 2 ^ 8 then Inr [word_of_int n] else Inl StructError)"

fun pack_fields :: "(error + byte list) list \<Rightarrow> error + byte list" where
  "pack_fields [] = Inr []"
| "pack_fields (Inl e # rest) = Inl e"
| "pack_fields (Inr bs # rest) =
     (case pack_fields rest of Inl e \<Rightarrow> Inl e | Inr others \<Rightarrow> Inr (bs @ others))"

text \<open>The argument of \<^verbatim>\<open>f.write\<close> in \<^verbatim>\<open>_write_header\<close>: format \<^verbatim>\<open>'<I H H H H B B B 49s'\<close>.\<close>

definition header :: "'f converter \<Rightarrow> error + byte list" where
  "header c =
     pack_fields
       [pack_I SPRITE_MAGIC,
        pack_H 1,
        pack_H (int (length (frames c))),
        pack_H (width c),
        pack_H (height c),
        pack_B (fps c),
        pack_B (color_format c),
        pack_B (compression c),
        Inr (replicate 49 0)]"

text \<open>\<^verbatim>\<open>struct.pack('BBBB', r, g, b, a)\<close> on byte values.\<close>

fun pack_BBBB :: "palette_entry \<Rightarrow> byte list" where
  "pack_BBBB (r, g, b, a) = [r, g, b, a]"

text \<open>
  The file system: the content of every existing file, the paths that cannot be opened
  for writing, and the number of bytes the device still accepts. \<^verbatim>\<open>open(path, 'wb')\<close>
  creates or truncates the file; \<^verbatim>\<open>f.write(data)\<close> appends \<open>data\<close> or raises
  \<^verbatim>\<open>IOError\<close> and writes nothing. A command returns the error it raised, if any,
  and the file system it leaves behind. (Output buffering is not modelled.)
\<close>

record file_system =
  files :: "string \<rightharpoonup> byte list"
  denied :: "string set"
  free_space :: nat

type_synonym command = "file_system \<Rightarrow> error option \<times> file_system"

definition open_wb :: "string \<Rightarrow> command" where
  "open_wb path fs =
     (if path \<in> denied fs then (Some IOError, fs)
      else (None, fs\<lparr>files := (files fs)(path \<mapsto> [])\<rparr>))"

definition f_write :: "string \<Rightarrow> byte list \<Rightarrow> command" where
  "f_write path data fs =
     (case files fs path of
        None \<Rightarrow> (Some IOError, fs)
      | Some old \<Rightarrow>
          if length data \<le> free_space fs
          then (None, fs\<lparr>files := (files fs)(path \<mapsto> old @ data),
                          free_space := free_space fs - length data\<rparr>)
          else (Some IOError, fs))"

fun write_each :: "string \<Rightarrow> byte list list \<Rightarrow> command" where
  "write_each path [] fs = (None, fs)"
| "write_each path (d # ds) fs =
     (case f_write path d fs of
        (Some e, fs') \<Rightarrow> (Some e, fs')
      | (None, fs') \<Rightarrow> write_each path ds fs')"

definition write_header :: "'f converter \<Rightarrow> string \<Rightarrow> command" where
  "write_header c path fs =
     (case header c of Inl e \<Rightarrow> (Some e, fs) | Inr h \<Rightarrow> f_write path h fs)"

definition write_palette :: "'f converter \<Rightarrow> string \<Rightarrow> command" where
  "write_palette c path fs = write_each path (map pack_BBBB (palette c)) fs"

definition write_frames :: "p_image converter \<Rightarrow> string \<Rightarrow> command" where
  "write_frames c path fs = write_each path (map tobytes (frames c)) fs"

text \<open>
  \<^verbatim>\<open>write_sprite\<close>: open, header, palette, frames. An exception leaves the \<^verbatim>\<open>with\<close> block,
  which closes the file; nothing removes it.
\<close>

definition write_sprite :: "p_image converter \<Rightarrow> string \<Rightarrow> command" where
  "write_sprite c output_path fs =
     (case open_wb output_path fs of
        (Some e, fs0) \<Rightarrow> (Some e, fs0)
      | (None, fs0) \<Rightarrow>
     (case write_header c output_path fs0 of
        (Some e, fs1) \<Rightarrow> (Some e, fs1)
      | (None, fs1) \<Rightarrow>
     (case write_palette c output_path fs1 of
        (Some e, fs2) \<Rightarrow> (Some e, fs2)
      | (None, fs2) \<Rightarrow> write_frames c output_path fs2)))"

text \<open>
  The bytes of a complete container with header \<open>h\<close>: header, palette entries in index
  order, frames in order.
\<close>

definition sprite_bytes :: "p_image converter \<Rightarrow> byte list \<Rightarrow> byte list" where
  "sprite_bytes c h = h @ concat (map pack_BBBB (palette c)) @ concat (map tobytes (frames c))"

section \<open>The conversion command\<close>

text \<open>
  \<^verbatim>\<open>main\<close>. The input argument selects the frame source: the literal \<^verbatim>\<open>test\<close>, a path
  ending in \<^verbatim>\<open>.gif\<close> (given here by the opened GIF) or a folder (given by its image
  files). \<open>a_fps\<close> is \<open>None\<close> when \<^verbatim>\<open>--fps\<close> is absent; the parser's default is 30.
  \<^verbatim>\<open>--width\<close>, \<^verbatim>\<open>--height\<close> and \<^verbatim>\<open>--frames\<close> are given with their defaults (64, 64, 20)
  applied.
\<close>

datatype input = TestInput | GifInput gif_file | FolderInput "rgb_image list"

record args =
  a_input :: input
  a_output :: string
  a_fps :: "int option"
  a_pattern :: pattern
  a_width :: int
  a_height :: int
  a_frames :: int

definition args_fps :: "args \<Rightarrow> int" where
  "args_fps a = (case a_fps a of None \<Rightarrow> 30 | Some v \<Rightarrow> v)"

definition load :: "pil \<Rightarrow> args \<Rightarrow> error + rgb_image converter" where
  "load lib a =
     (let converter = init\<lparr>fps := args_fps a\<rparr> in
      case a_input a of
        TestInput \<Rightarrow>
          (case generate_test_pattern lib (a_width a) (a_height a) (a_frames a) (a_pattern a) of
             Inl e \<Rightarrow> Inl e
           | Inr fs \<Rightarrow> Inr (converter\<lparr>frames := fs, width := a_width a, height := a_height a\<rparr>))
      | GifInput gif \<Rightarrow>
          load_from_gif lib gif
            (if a_width a \<noteq> 64 then Some (a_width a) else None)
            (if a_height a \<noteq> 64 then Some (a_height a) else None) converter
      | FolderInput image_files \<Rightarrow> load_from_folder image_files converter)"

definition main :: "pil \<Rightarrow> args \<Rightarrow> command" where
  "main lib a fs =
     (case load lib a of
        Inl e \<Rightarrow> (Some e, fs)
      | Inr converter \<Rightarrow>
          (case generate_palette lib converter of
             Inl e \<Rightarrow> (Some e, fs)
           | Inr converter' \<Rightarrow> write_sprite converter' (a_output a) fs))"

section \<open>The upload client's validator\<close>

text \<open>
  \<^verbatim>\<open>validate_spr_file\<close>: the file must exist, its first four bytes must be \<^verbatim>\<open>b'IKOD'\<close>,
  and it must not exceed 1 MiB.
\<close>

definition expected_magic :: "byte list" where
  "expected_magic = map of_char ''IKOD''"

definition validate_spr_file :: "file_system \<Rightarrow> string \<Rightarrow> bool" where
  "validate_spr_file fs filepath =
     (case files fs filepath of
        None \<Rightarrow> False
      | Some content \<Rightarrow>
          (let magic_bytes = take 4 content in
           if length magic_bytes < 4 then False
           else if magic_bytes \<noteq> expected_magic then False
           else if length content > 1024 * 1024 then False
           else True))"

section \<open>Reading aids and sample values\<close>

text \<open>The value of a byte string read as a little-endian unsigned number.\<close>

fun le_value :: "byte list \<Rightarrow> nat" where
  "le_value [] = 0"
| "le_value (b # bs) = unat b + 256 * le_value bs"

text \<open>
  Sample values on which the theorems below are exercised: a 4\<times>4 indexed frame whose
  pixels all have index 0, a converter holding three of them with a 256-entry black
  palette at 10 frames per second, an empty disk with 1 MiB free, and a disk that holds
  three small files.
\<close>

definition black_frame :: p_image where
  "black_frame = \<lparr>img_size = (4, 4), pix = (\<lambda>x y. 0), getpalette = replicate 768 0\<rparr>"

definition example_converter :: "p_image converter" where
  "example_converter =
     \<lparr>frames = [black_frame, black_frame, black_frame], width = 4, height = 4, fps = 10,
      color_format = 0, compression = 0, palette = replicate 256 (0, 0, 0, 255)\<rparr>"

definition empty_disk :: file_system where
  "empty_disk = \<lparr>files = Map.empty, denied = {}, free_space = 1048576\<rparr>"

definition sample_disk :: file_system where
  "sample_disk =
     \<lparr>files = [''good.spr'' \<mapsto> [0x49, 0x4B, 0x4F, 0x44],
               ''zero.spr'' \<mapsto> [0, 0, 0, 0],
               ''short.spr'' \<mapsto> [0x49, 0x4B, 0x4F]],
      denied = {}, free_space = 0\<rparr>"

text \<open>
  A stand-in for the imaging library that never fails and returns black everywhere: a
  768-value palette of zeros, index 0 for every pixel, black pixels for every resized or
  rendered frame. Further sample values: a black RGB image of a given size and a
  converter that has loaded three 4\<times>4 frames.
\<close>

definition flat_pil :: pil where
  "flat_pil =
     \<lparr>quantize = (\<lambda>im. Some (replicate 768 0, (\<lambda>x y. 0))),
      quantize_to = (\<lambda>q im. Some (\<lambda>x y. 0)),
      resize = (\<lambda>im w h. Some (\<lambda>x y. (0, 0, 0))),
      render = (\<lambda>p w h n i. Some (\<lambda>x y. (0, 0, 0)))\<rparr>"

definition black_rgb :: "nat \<Rightarrow> nat \<Rightarrow> rgb_image" where
  "black_rgb w h = \<lparr>img_size = (w, h), pix = (\<lambda>x y. (0, 0, 0))\<rparr>"

definition loaded_converter :: "rgb_image converter" where
  "loaded_converter =
     \<lparr>frames = [black_rgb 4 4, black_rgb 4 4, black_rgb 4 4], width = 4, height = 4, fps = 10,
      color_format = 0, compression = 0, palette = [(1, 2, 3, 4)]\<rparr>"

text \<open>
  A two-frame GIF with 40 ms per frame, a command line that converts it with
  \<^verbatim>\<open>--fps 30\<close>, and a folder whose third image is wider than the first two.
\<close>

definition sample_gif :: gif_file where
  "sample_gif = \<lparr>gif_size = (4, 4), gif_duration = Some 40,
                  gif_frames = [(\<lambda>x y. (0, 0, 0)), (\<lambda>x y. (0, 0, 0))]\<rparr>"

definition gif_args :: args where
  "gif_args = \<lparr>a_input = GifInput sample_gif, a_output = ''out.spr'', a_fps = Some 30,
                a_pattern = Spinner, a_width = 64, a_height = 64, a_frames = 20\<rparr>"

definition mixed_folder :: "rgb_image list" where
  "mixed_folder = [black_rgb 4 4, black_rgb 4 4, black_rgb 8 4]"

text \<open>
  Command lines: the test pattern with \<^verbatim>\<open>--frames 0\<close>, a folder of three 4\<times>4 images
  converted at 10 frames per second, a folder without image files, and the folder with
  the wider third image. \<open>tight_disk\<close>
  is an empty disk that accepts 64 more bytes.
\<close>

definition zero_frames_args :: args where
  "zero_frames_args = \<lparr>a_input = TestInput, a_output = ''out.spr'', a_fps = None,
                        a_pattern = Spinner, a_width = 64, a_height = 64, a_frames = 0\<rparr>"

definition folder_args :: args where
  "folder_args = \<lparr>a_input = FolderInput [black_rgb 4 4, black_rgb 4 4, black_rgb 4 4],
                   a_output = ''out.spr'', a_fps = Some 10,
                   a_pattern = Spinner, a_width = 64, a_height = 64, a_frames = 20\<rparr>"

definition empty_folder_args :: args where
  "empty_folder_args = \<lparr>a_input = FolderInput [], a_output = ''out.spr'', a_fps = Some 10,
                         a_pattern = Spinner, a_width = 64, a_height = 64, a_frames = 20\<rparr>"

definition mixed_folder_args :: args where
  "mixed_folder_args = \<lparr>a_input = FolderInput mixed_folder, a_output = ''out.spr'',
                         a_fps = Some 10, a_pattern = Spinner, a_width = 64, a_height = 64,
                         a_frames = 20\<rparr>"

definition tight_disk :: file_system where
  "tight_disk = \<lparr>files = Map.empty, denied = {}, free_space = 64\<rparr>"

section \<open>Facts about serialization\<close>


lemma pack_fields_Cons_Inr:
  "pack_fields (x # rest) = Inr bs \<longleftrightarrow> (\<exists>a b. x = Inr a \<and> pack_fields rest = Inr b \<and> bs = a @ b)"
  by (cases x) (auto split: sum.splits)

lemma header_Inr:
  assumes "header c = Inr h"
  shows "h = [0x49, 0x4B, 0x4F, 0x44, 1, 0,
              word_of_int (int (length (frames c))), word_of_int (int (length (frames c)) div 2 ^ 8),
              word_of_int (width c), word_of_int (width c div 2 ^ 8),
              word_of_int (height c), word_of_int (height c div 2 ^ 8),
              word_of_int (fps c), word_of_int (color_format c), word_of_int (compression c)]
             @ replicate 49 0"
  using assms
  by (auto simp: header_def pack_fields_Cons_Inr pack_I_def pack_H_def pack_B_def SPRITE_MAGIC_def
      split: if_splits)

lemma header_length: "header c = Inr h \<Longrightarrow> length h = 64"
  by (drule header_Inr) simp

lemma f_write_None:
  "f_write path d fs = (None, fs') \<Longrightarrow> files fs path = Some old \<Longrightarrow>
     files fs' = (files fs)(path \<mapsto> old @ d) \<and> denied fs' = denied fs"
  by (auto simp: f_write_def split: option.splits if_splits)

lemma f_write_Some:
  "f_write path d fs = (Some e, fs') \<Longrightarrow> e = IOError \<and> fs' = fs"
  by (auto simp: f_write_def split: option.splits if_splits)

lemma write_each_None:
  "write_each path ds fs = (None, fs') \<Longrightarrow> files fs path = Some old \<Longrightarrow>
     files fs' = (files fs)(path \<mapsto> old @ concat ds)"
proof (induction ds arbitrary: fs old)
  case Nil
  then show ?case by auto
next
  case (Cons d ds)
  from Cons.prems obtain fs1 where w: "f_write path d fs = (None, fs1)"
    and r: "write_each path ds fs1 = (None, fs')"
    by (auto split: prod.splits option.splits)
  from f_write_None [OF w Cons.prems(2)] have f1: "files fs1 = (files fs)(path \<mapsto> old @ d)" by simp
  then have "files fs1 path = Some (old @ d)" by simp
  from Cons.IH [OF r this] show ?case unfolding f1 by (simp add: fun_eq_iff)
qed

lemma write_each_Some:
  "write_each path ds fs = (Some e, fs') \<Longrightarrow> files fs path = Some old \<Longrightarrow>
     e = IOError \<and> (\<exists>k < length ds. files fs' = (files fs)(path \<mapsto> old @ concat (take k ds)))"
proof (induction ds arbitrary: fs old)
  case Nil
  then show ?case by auto
next
  case (Cons d ds)
  show ?case
  proof (cases "f_write path d fs")
    case (Pair r fs1)
    show ?thesis
    proof (cases r)
      case None
      with Pair Cons.prems have r: "write_each path ds fs1 = (Some e, fs')" by simp
      from f_write_None [OF Pair [unfolded None] Cons.prems(2)]
      have f1: "files fs1 = (files fs)(path \<mapsto> old @ d)" by simp
      then have "files fs1 path = Some (old @ d)" by simp
      from Cons.IH [OF r this] obtain k where "e = IOError" "k < length ds"
        "files fs' = (files fs1)(path \<mapsto> (old @ d) @ concat (take k ds))" by blast
      with f1 have "Suc k < length (d # ds)"
        "files fs' = (files fs)(path \<mapsto> old @ concat (take (Suc k) (d # ds)))"
        by (auto simp: fun_eq_iff)
      with \<open>e = IOError\<close> show ?thesis by blast
    next
      case (Some e')
      with Pair Cons.prems have "e = e'" "fs' = fs1" by auto
      with f_write_Some [OF Pair [unfolded Some]] Cons.prems(2)
      have "e = IOError" "files fs' = (files fs)(path \<mapsto> old @ concat (take 0 (d # ds)))"
        by (auto simp: fun_eq_iff)
      then show ?thesis by (intro conjI exI [of _ 0]) auto
    qed
  qed
qed


lemma f_write_Some':
  "f_write path d fs = (Some e, fs') \<Longrightarrow> files fs path = Some old \<Longrightarrow> free_space fs < length d"
  by (auto simp: f_write_def split: option.splits if_splits)

lemma write_each_Some_chunk:
  "write_each path ds fs = (Some e, fs') \<Longrightarrow> files fs path = Some old \<Longrightarrow>
     \<exists>k < length ds. files fs' = (files fs)(path \<mapsto> old @ concat (take k ds)) \<and> ds ! k \<noteq> []"
proof (induction ds arbitrary: fs old)
  case Nil
  then show ?case by auto
next
  case (Cons d ds)
  show ?case
  proof (cases "f_write path d fs")
    case (Pair r fs1)
    show ?thesis
    proof (cases r)
      case None
      with Pair Cons.prems have r: "write_each path ds fs1 = (Some e, fs')" by simp
      from f_write_None [OF Pair [unfolded None] Cons.prems(2)]
      have f1: "files fs1 = (files fs)(path \<mapsto> old @ d)" by simp
      then have "files fs1 path = Some (old @ d)" by simp
      from Cons.IH [OF r this] obtain k where "k < length ds"
        "files fs' = (files fs1)(path \<mapsto> (old @ d) @ concat (take k ds))" "ds ! k \<noteq> []" by blast
      with f1 have "Suc k < length (d # ds)"
        "files fs' = (files fs)(path \<mapsto> old @ concat (take (Suc k) (d # ds)))"
        "(d # ds) ! Suc k \<noteq> []"
        by (auto simp: fun_eq_iff)
      then show ?thesis by blast
    next
      case (Some e')
      with Pair Cons.prems have "e = e'" "fs' = fs1" by auto
      with f_write_Some [OF Pair [unfolded Some]] f_write_Some' [OF Pair [unfolded Some] Cons.prems(2)]
        Cons.prems(2)
      have "files fs' = (files fs)(path \<mapsto> old @ concat (take 0 (d # ds)))" "(d # ds) ! 0 \<noteq> []"
        by (auto simp: fun_eq_iff)
      then show ?thesis by (intro exI [of _ 0]) auto
    qed
  qed
qed

lemma concat_take_shorter:
  "k < length ds \<Longrightarrow> ds ! k \<noteq> [] \<Longrightarrow> length (concat (take k ds)) < length (concat ds)"
proof -
  assume k: "k < length ds" and ne: "ds ! k \<noteq> []"
  have "ds = take k ds @ ds ! k # drop (Suc k) ds"
    using k by (simp add: id_take_nth_drop)
  then have "concat ds = concat (take k ds) @ ds ! k @ concat (drop (Suc k) ds)"
    by (metis concat.simps(2) concat_append)
  then have "length (concat ds) = length (concat (take k ds)) + length (ds ! k) + length (concat (drop (Suc k) ds))"
    by (metis add.assoc length_append)
  with ne show ?thesis by simp
qed

lemma concat_take_prefix: "prefix (concat (take k ds)) (concat ds)"
  by (metis append_take_drop_id concat_append prefixI)

lemma open_wb_cases:
  "open_wb path fs = (r, fs0) \<Longrightarrow>
     (r = Some IOError \<and> fs0 = fs \<and> path \<in> denied fs) \<or>
     (r = None \<and> fs0 = fs\<lparr>files := (files fs)(path \<mapsto> [])\<rparr> \<and> path \<notin> denied fs)"
  by (auto simp: open_wb_def split: if_splits)


lemma write_sprite_None:
  assumes "write_sprite c path fs = (None, fs')"
  shows "\<exists>h. header c = Inr h \<and> files fs' = (files fs)(path \<mapsto> sprite_bytes c h)"
proof -
  from assms obtain fs0 fs1 fs2 where
    o: "open_wb path fs = (None, fs0)" and
    h: "write_header c path fs0 = (None, fs1)" and
    p: "write_palette c path fs1 = (None, fs2)" and
    f: "write_frames c path fs2 = (None, fs')"
    by (auto simp: write_sprite_def split: prod.splits option.splits)
  from open_wb_cases [OF o] have f0: "files fs0 = (files fs)(path \<mapsto> [])" by auto
  then have s0: "files fs0 path = Some []" by simp
  from h obtain hdr where hd: "header c = Inr hdr" and w: "f_write path hdr fs0 = (None, fs1)"
    by (auto simp: write_header_def split: sum.splits)
  from f_write_None [OF w s0] have f1: "files fs1 = (files fs0)(path \<mapsto> hdr)" by simp
  then have s1: "files fs1 path = Some hdr" by simp
  from write_each_None [OF p [unfolded write_palette_def] s1]
  have f2: "files fs2 = (files fs1)(path \<mapsto> hdr @ concat (map pack_BBBB (palette c)))" .
  then have s2: "files fs2 path = Some (hdr @ concat (map pack_BBBB (palette c)))" by simp
  from write_each_None [OF f [unfolded write_frames_def] s2]
  have "files fs' = (files fs2)(path \<mapsto> sprite_bytes c hdr)"
    by (simp add: sprite_bytes_def)
  with f2 f1 f0 have "files fs' = (files fs)(path \<mapsto> sprite_bytes c hdr)"
    by (simp add: fun_eq_iff)
  with hd show ?thesis by blast
qed


lemma write_sprite_Some:
  assumes "write_sprite c path fs = (Some e, fs')"
  shows "(e = IOError \<and> fs' = fs) \<or>
         (e = StructError \<and> header c = Inl StructError \<and> files fs' = (files fs)(path \<mapsto> [])) \<or>
         (e = IOError \<and> (\<exists>h bs. header c = Inr h \<and> files fs' = (files fs)(path \<mapsto> bs) \<and>
             prefix bs (sprite_bytes c h) \<and> length bs < length (sprite_bytes c h)))"
proof -
  obtain r fs0 where o: "open_wb path fs = (r, fs0)" by (cases "open_wb path fs")
  from open_wb_cases [OF o] consider
    (denied) "r = Some IOError" "fs0 = fs" |
    (opened) "r = None" "fs0 = fs\<lparr>files := (files fs)(path \<mapsto> [])\<rparr>" by blast
  then show ?thesis
  proof cases
    case denied
    with o assms show ?thesis by (simp add: write_sprite_def)
  next
    case opened
    then have f0: "files fs0 = (files fs)(path \<mapsto> [])" and s0: "files fs0 path = Some []" by simp_all
    show ?thesis
    proof (cases "header c")
      case (Inl e')
      then have "e' = StructError"
        by (auto simp: header_def pack_I_def pack_H_def pack_B_def split: if_splits)
      with Inl o opened assms f0 show ?thesis
        by (auto simp: write_sprite_def write_header_def)
    next
      case (Inr hdr)
      let ?pal = "map pack_BBBB (palette c)" and ?frs = "map tobytes (frames c)"
      obtain r1 fs1 where w: "f_write path hdr fs0 = (r1, fs1)" by (cases "f_write path hdr fs0")
      show ?thesis
      proof (cases r1)
        case (Some e1)
        with w assms o opened Inr have e: "e = e1" "fs' = fs1"
          by (auto simp: write_sprite_def write_header_def)
        from f_write_Some [OF w [unfolded Some]] f_write_Some' [OF w [unfolded Some] s0]
        have "e1 = IOError" "fs1 = fs0" "hdr \<noteq> []" by auto
        with e f0 Inr have "e = IOError" "files fs' = (files fs)(path \<mapsto> [])"
          "prefix [] (sprite_bytes c hdr)" "length ([]::byte list) < length (sprite_bytes c hdr)"
          by (auto simp: sprite_bytes_def)
        with Inr show ?thesis by blast
      next
        case None
        from f_write_None [OF w [unfolded None] s0] f0
        have f1: "files fs1 = (files fs)(path \<mapsto> hdr)" by (simp add: fun_eq_iff)
        then have s1: "files fs1 path = Some hdr" by simp
        obtain r2 fs2 where p: "write_each path ?pal fs1 = (r2, fs2)"
          by (cases "write_each path ?pal fs1")
        show ?thesis
        proof (cases r2)
          case (Some e2)
          with p w None assms o opened Inr have e: "e = e2" "fs' = fs2"
            by (auto simp: write_sprite_def write_header_def write_palette_def)
          from write_each_Some [OF p [unfolded Some] s1] have "e2 = IOError" by simp
          moreover from write_each_Some_chunk [OF p [unfolded Some] s1] obtain k where
            k: "k < length ?pal" "files fs2 = (files fs1)(path \<mapsto> hdr @ concat (take k ?pal))"
               "?pal ! k \<noteq> []" by blast
          let ?bs = "hdr @ concat (take k ?pal)"
          from k f1 e have "files fs' = (files fs)(path \<mapsto> ?bs)" by (simp add: fun_eq_iff)
          moreover have "prefix ?bs (sprite_bytes c hdr)"
            using concat_take_prefix [of k ?pal] by (auto simp: sprite_bytes_def prefix_def)
          moreover have "length ?bs < length (sprite_bytes c hdr)"
            using concat_take_shorter [OF k(1) k(3)] by (simp add: sprite_bytes_def)
          ultimately show ?thesis using e Inr by blast
        next
          case None2: None
          from write_each_None [OF p [unfolded None2] s1] f1
          have f2: "files fs2 = (files fs)(path \<mapsto> hdr @ concat ?pal)" by (simp add: fun_eq_iff)
          then have s2: "files fs2 path = Some (hdr @ concat ?pal)" by simp
          from p w None None2 assms o opened Inr have fr: "write_each path ?frs fs2 = (Some e, fs')"
            by (auto simp: write_sprite_def write_header_def write_palette_def write_frames_def)
          from write_each_Some [OF fr s2] have "e = IOError" by simp
          moreover from write_each_Some_chunk [OF fr s2] obtain k where
            k: "k < length ?frs" "files fs' = (files fs2)(path \<mapsto> (hdr @ concat ?pal) @ concat (take k ?frs))"
               "?frs ! k \<noteq> []" by blast
          let ?bs = "(hdr @ concat ?pal) @ concat (take k ?frs)"
          from k f2 have "files fs' = (files fs)(path \<mapsto> ?bs)" by (simp add: fun_eq_iff)
          moreover have "prefix ?bs (sprite_bytes c hdr)"
            using concat_take_prefix [of k ?frs] by (auto simp: sprite_bytes_def prefix_def)
          moreover have "length ?bs < length (sprite_bytes c hdr)"
            using concat_take_shorter [OF k(1) k(3)] by (simp add: sprite_bytes_def)
          ultimately show ?thesis using Inr by blast
        qed
      qed
    qed
  qed
qed

lemma write_each_succeeds:
  "files fs path = Some old \<Longrightarrow> length (concat ds) \<le> free_space fs \<Longrightarrow>
     \<exists>fs'. write_each path ds fs = (None, fs') \<and>
           free_space fs' = free_space fs - length (concat ds) \<and>
           files fs' path = Some (old @ concat ds)"
proof (induction ds arbitrary: fs old)
  case Nil
  then show ?case by simp
next
  case (Cons d ds)
  let ?fs1 = "fs\<lparr>files := (files fs)(path \<mapsto> old @ d), free_space := free_space fs - length d\<rparr>"
  from Cons.prems have w: "f_write path d fs = (None, ?fs1)"
    by (simp add: f_write_def)
  have "files ?fs1 path = Some (old @ d)" "length (concat ds) \<le> free_space ?fs1"
    using Cons.prems by simp_all
  from Cons.IH [OF this] w show ?case by auto
qed

lemma write_sprite_succeeds:
  assumes "path \<notin> denied fs" and "header c = Inr h"
    and "length (sprite_bytes c h) \<le> free_space fs"
  shows "fst (write_sprite c path fs) = None"
proof -
  let ?fs0 = "fs\<lparr>files := (files fs)(path \<mapsto> [])\<rparr>"
  let ?pal = "map pack_BBBB (palette c)" and ?frs = "map tobytes (frames c)"
  from assms(1) have o: "open_wb path fs = (None, ?fs0)" by (simp add: open_wb_def)
  have "files ?fs0 path = Some []" "length (concat [h]) \<le> free_space ?fs0"
    using assms(3) by (simp_all add: sprite_bytes_def)
  from write_each_succeeds [OF this] obtain fs1 where
    w1: "write_each path [h] ?fs0 = (None, fs1)" and
    s1: "free_space fs1 = free_space fs - length h" "files fs1 path = Some h"
    by auto
  from w1 have wh: "write_header c path ?fs0 = (None, fs1)"
    using assms(2) by (auto simp: write_header_def split: prod.splits option.splits)
  have "length (concat ?pal) \<le> free_space fs1"
    using assms(3) s1 by (simp add: sprite_bytes_def)
  from write_each_succeeds [OF s1(2) this] obtain fs2 where
    w2: "write_each path ?pal fs1 = (None, fs2)" and
    s2: "free_space fs2 = free_space fs1 - length (concat ?pal)"
        "files fs2 path = Some (h @ concat ?pal)"
    by auto
  have "length (concat ?frs) \<le> free_space fs2"
    using assms(3) s1 s2 by (simp add: sprite_bytes_def)
  from write_each_succeeds [OF s2(2) this] obtain fs3 where
    w3: "write_each path ?frs fs2 = (None, fs3)" by auto
  from o wh w2 w3 show ?thesis
    by (simp add: write_sprite_def write_palette_def write_frames_def)
qed

lemma length_concat_pack_BBBB: "length (concat (map pack_BBBB pal)) = 4 * length pal"
  by (induction pal) auto

lemma length_tobytes: "length (tobytes im) = fst (img_size im) * snd (img_size im)"
  by (simp add: tobytes_def length_concat comp_def sum_list_triv)

lemma length_concat_tobytes:
  "\<forall>f \<in> set fs. img_size f = (w, h) \<Longrightarrow> length (concat (map tobytes fs)) = length fs * w * h"
  by (induction fs) (auto simp: length_tobytes algebra_simps)

lemma length_sprite_bytes:
  "\<forall>f \<in> set (frames c). img_size f = (w, h) \<Longrightarrow>
     length (sprite_bytes c hdr) = length hdr + 4 * length (palette c) + length (frames c) * w * h"
  by (simp add: sprite_bytes_def length_concat_pack_BBBB length_concat_tobytes)

lemma example_header:
  "header example_converter =
     Inr ([0x49, 0x4B, 0x4F, 0x44, 1, 0, 3, 0, 4, 0, 4, 0, 10, 0, 0] @ replicate 49 0)"
  by (simp add: header_def example_converter_def pack_I_def pack_H_def pack_B_def SPRITE_MAGIC_def)

lemma example_frames_size: "\<forall>f \<in> set (frames example_converter). img_size f = (4, 4)"
  by (simp add: example_converter_def black_frame_def)

lemma example_written: "fst (write_sprite example_converter ''out.spr'' empty_disk) = None"
proof (rule write_sprite_succeeds [OF _ example_header])
  show "''out.spr'' \<notin> denied empty_disk" by (simp add: empty_disk_def)
  from length_sprite_bytes [OF example_frames_size]
  show "length (sprite_bytes example_converter
          ([0x49, 0x4B, 0x4F, 0x44, 1, 0, 3, 0, 4, 0, 4, 0, 10, 0, 0] @ replicate 49 0))
        \<le> free_space empty_disk"
    by (simp add: empty_disk_def example_converter_def)
qed

lemma concat_equal_chunks_take_drop:
  "\<forall>x \<in> set xs. length x = m \<Longrightarrow> n < length xs \<Longrightarrow>
     take m (drop (n * m) (concat xs)) = xs ! n"
proof (induction xs arbitrary: n)
  case Nil
  then show ?case by simp
next
  case (Cons x xs)
  show ?case
  proof (cases n)
    case 0
    with Cons.prems show ?thesis by simp
  next
    case (Suc k)
    with Cons.prems have "take m (drop (k * m) (concat xs)) = xs ! k"
      by (intro Cons.IH) auto
    with Suc Cons.prems show ?thesis by simp
  qed
qed

lemma concat_rows_nth:
  "y < h \<Longrightarrow> x < w \<Longrightarrow>
     concat (map (\<lambda>y. map (\<lambda>x. f x y) [0..<w]) [0..<h]) ! (y * w + x) = f x y"
proof -
  assume y: "y < h" and x: "x < w"
  let ?rows = "map (\<lambda>y. map (\<lambda>x. f x y) [0..<w]) [0..<h]"
  have "\<forall>r \<in> set ?rows. length r = w" by auto
  moreover have "y < length ?rows" using y by simp
  ultimately have "take w (drop (y * w) (concat ?rows)) = ?rows ! y"
    by (rule concat_equal_chunks_take_drop)
  then have "take w (drop (y * w) (concat ?rows)) ! x = (?rows ! y) ! x" by simp
  moreover have "length (concat ?rows) = h * w"
    by (simp add: length_concat comp_def sum_list_triv)
  moreover have "y * w + x < h * w"
  proof -
    have "y * w + x < y * w + w" using x by simp
    also have "\<dots> = Suc y * w" by simp
    also have "\<dots> \<le> h * w" using y by (intro mult_le_mono1) simp
    finally show ?thesis .
  qed
  ultimately show ?thesis using x y by simp
qed

lemma tobytes_nth:
  "img_size im = (w, h) \<Longrightarrow> y < h \<Longrightarrow> x < w \<Longrightarrow> tobytes im ! (y * w + x) = pix im x y"
  by (simp add: tobytes_def concat_rows_nth)

section \<open>Facts about palette generation\<close>

lemma palette_loop_Inr:
  "palette_loop pd is = Inr pal \<Longrightarrow>
     pal = map (\<lambda>i. (pd ! (i * 3), pd ! (i * 3 + 1), pd ! (i * 3 + 2), 255)) is"
  by (induction "is" arbitrary: pal) (auto simp: getitem_def split: sum.splits if_splits)

lemma palette_loop_total:
  "\<forall>i \<in> set is. i * 3 + 2 < length pd \<Longrightarrow>
     palette_loop pd is = Inr (map (\<lambda>i. (pd ! (i * 3), pd ! (i * 3 + 1), pd ! (i * 3 + 2), 255)) is)"
  by (induction "is") (auto simp: getitem_def)

lemma palette_loop_Inl: "palette_loop pd is = Inl e \<Longrightarrow> e = IndexError"
  by (induction "is") (auto simp: getitem_def split: sum.splits if_splits)

lemma index_frames_Inr:
  "index_frames lib q fs = Inr ps \<Longrightarrow> map img_size ps = map img_size fs"
  by (induction fs arbitrary: ps) (auto split: option.splits sum.splits)

lemma index_frames_total:
  "\<forall>f \<in> set fs. quantize_to lib q f \<noteq> None \<Longrightarrow> \<exists>ps. index_frames lib q fs = Inr ps"
  by (induction fs) auto

lemma generate_palette_Inr:
  assumes "generate_palette lib c = Inr c'"
  shows "\<exists>canvas pd ix.
           Image_new (width c * int (length (frames c))) (height c) = Inr canvas \<and>
           quantize lib (paste_frames canvas (width c) 0 (frames c)) = Some (pd, ix) \<and>
           palette_loop pd [0..<256] = Inr (palette c') \<and>
           index_frames lib \<lparr>img_size = img_size (paste_frames canvas (width c) 0 (frames c)),
                              pix = ix, getpalette = pd\<rparr> (frames c) = Inr (frames c') \<and>
           width c' = width c \<and> height c' = height c \<and> fps c' = fps c"
  using assms
  by (auto simp: generate_palette_def Let_def split: sum.splits option.splits prod.splits)

lemma concat_pack_BBBB_entry:
  "i < length pal \<Longrightarrow> take 4 (drop (4 * i) (concat (map pack_BBBB pal))) = pack_BBBB (pal ! i)"
proof -
  assume i: "i < length pal"
  have "\<forall>x \<in> set (map pack_BBBB pal). length x = 4" by auto
  from concat_equal_chunks_take_drop [OF this, of i] i show ?thesis
    by (simp add: mult.commute)
qed

section \<open>Facts about loading\<close>

lemma load_loop_mismatch:
  "0 < idx \<Longrightarrow> width c = int (fst s0) \<Longrightarrow> height c = int (snd s0) \<Longrightarrow>
   \<exists>i < length imgs. img_size (imgs ! i) \<noteq> s0 \<Longrightarrow>
   \<exists>k < length imgs. img_size (imgs ! k) \<noteq> s0 \<and> (\<forall>j < k. img_size (imgs ! j) = s0) \<and>
      load_loop idx imgs c = Inl (DimensionMismatch (idx + k) (img_size (imgs ! k)))"
proof (induction imgs arbitrary: idx c)
  case Nil
  then show ?case by simp
next
  case (Cons img rest)
  show ?case
  proof (cases "img_size img = s0")
    case False
    then have "(int (fst (img_size img)), int (snd (img_size img))) \<noteq> (width c, height c)"
      using Cons.prems(2,3) by (auto simp: prod_eq_iff)
    with Cons.prems(1) have "load_loop idx (img # rest) c = Inl (DimensionMismatch idx (img_size img))"
      by simp
    with False show ?thesis by (intro exI [of _ 0]) simp
  next
    case True
    let ?c = "c\<lparr>frames := frames c @ [img]\<rparr>"
    from True Cons.prems have step: "load_loop idx (img # rest) c = load_loop (Suc idx) rest ?c"
      by simp
    from Cons.prems(4) obtain i0 where i0: "i0 < length (img # rest)"
      "img_size ((img # rest) ! i0) \<noteq> s0" by blast
    with True obtain i where "i0 = Suc i" by (cases i0) auto
    with i0 have "i < length rest" "img_size (rest ! i) \<noteq> s0" by auto
    then have ex: "\<exists>i < length rest. img_size (rest ! i) \<noteq> s0" by blast
    have "0 < Suc idx" "width ?c = int (fst s0)" "height ?c = int (snd s0)"
      using Cons.prems by simp_all
    from Cons.IH [OF this ex] obtain k where k: "k < length rest" "img_size (rest ! k) \<noteq> s0"
      "\<forall>j < k. img_size (rest ! j) = s0"
      "load_loop (Suc idx) rest ?c = Inl (DimensionMismatch (Suc idx + k) (img_size (rest ! k)))"
      by blast
    have "\<forall>j < Suc k. img_size ((img # rest) ! j) = s0"
      using k(3) True by (auto simp: nth_Cons split: nat.splits)
    with k step show ?thesis by (intro exI [of _ "Suc k"]) simp
  qed
qed

lemma load_from_folder_mismatch:
  assumes "\<exists>i < length image_files. img_size (image_files ! i) \<noteq> img_size (image_files ! 0)"
  shows "\<exists>k < length image_files.
      img_size (image_files ! k) \<noteq> img_size (image_files ! 0) \<and>
      (\<forall>j < k. img_size (image_files ! j) = img_size (image_files ! 0)) \<and>
      load_from_folder image_files c = Inl (DimensionMismatch k (img_size (image_files ! k)))"
proof (cases image_files)
  case Nil
  with assms show ?thesis by simp
next
  case (Cons img rest)
  let ?s0 = "img_size img"
  let ?c = "c\<lparr>width := int (fst ?s0), height := int (snd ?s0), frames := frames c @ [img]\<rparr>"
  from assms Cons obtain i0 where i0: "i0 < length (img # rest)"
    "img_size ((img # rest) ! i0) \<noteq> ?s0" by auto
  then obtain i where "i0 = Suc i" by (cases i0) auto
  with i0 have "i < length rest" "img_size (rest ! i) \<noteq> ?s0" by auto
  then have ex: "\<exists>i < length rest. img_size (rest ! i) \<noteq> ?s0" by blast
  have "0 < Suc 0" "width ?c = int (fst ?s0)" "height ?c = int (snd ?s0)" by simp_all
  from load_loop_mismatch [OF this ex] obtain k where k: "k < length rest"
    "img_size (rest ! k) \<noteq> ?s0" "\<forall>j < k. img_size (rest ! j) = ?s0"
    "load_loop (Suc 0) rest ?c = Inl (DimensionMismatch (Suc 0 + k) (img_size (rest ! k)))"
    by blast
  have "\<forall>j < Suc k. img_size ((img # rest) ! j) = ?s0"
    using k(3) by (auto simp: nth_Cons split: nat.splits)
  moreover have "load_from_folder (img # rest) c = load_loop (Suc 0) rest ?c"
    by (simp add: load_from_folder_def)
  ultimately show ?thesis using k Cons by (intro exI [of _ "Suc k"]) simp
qed

lemma load_from_gif_fps:
  "load_from_gif lib gif tw th c = Inr c' \<Longrightarrow>
     fps c' = (case gif_fps gif of None \<Rightarrow> fps c | Some g \<Rightarrow> if fps c = 30 then g else fps c)"
  by (auto simp: load_from_gif_def Let_def split: sum.splits option.splits if_splits)

lemma gif_zero_duration_keeps_fps:
  "a_input a = GifInput gif \<Longrightarrow> gif_duration gif = Some 0 \<Longrightarrow> load lib a = Inr c \<Longrightarrow>
     gif_fps gif = None \<and> fps c = args_fps a"
  by (auto simp: load_def Let_def init_def gif_fps_def dest!: load_from_gif_fps)

section \<open>Facts about whole runs\<close>

lemma index_frames_Inl: "index_frames lib q fs = Inl e \<Longrightarrow> e = LibraryError"
  by (induction fs) (auto split: option.splits sum.splits)

lemma generate_palette_Inl:
  "generate_palette lib c = Inl e \<Longrightarrow> e = LibraryError \<or> e = IndexError"
  by (auto simp: generate_palette_def Image_new_def Let_def
      split: sum.splits option.splits prod.splits if_splits
      dest: palette_loop_Inl index_frames_Inl)

lemma generate_palette_total:
  assumes "Image_new (width c * int (length (frames c))) (height c) = Inr canvas"
    and "quantize lib (paste_frames canvas (width c) 0 (frames c)) = Some (pd, ix)"
    and "768 \<le> length pd"
    and "index_frames lib \<lparr>img_size = img_size (paste_frames canvas (width c) 0 (frames c)),
                            pix = ix, getpalette = pd\<rparr> (frames c) = Inr ps"
  shows "generate_palette lib c =
     Inr \<lparr>frames = ps, width = width c, height = height c, fps = fps c,
          color_format = color_format c, compression = compression c,
          palette = map (\<lambda>i. (pd ! (i * 3), pd ! (i * 3 + 1), pd ! (i * 3 + 2), 255)) [0..<256]\<rparr>"
proof -
  from assms(3) have "\<forall>i \<in> set [0..<256]. i * 3 + 2 < length pd" by auto
  from palette_loop_total [OF this] assms(1,2,4) show ?thesis
    by (simp add: generate_palette_def Let_def)
qed

lemma write_sprite_Some_error:
  "write_sprite c path fs = (Some e, fs') \<Longrightarrow> e = IOError \<or> e = StructError"
  by (drule write_sprite_Some) blast

lemma main_not_EmptyInput:
  assumes "load lib a = Inr c"
  shows "fst (main lib a fs) \<noteq> Some EmptyInput"
proof (cases "generate_palette lib c")
  case (Inl e)
  with assms generate_palette_Inl [OF Inl] show ?thesis by (auto simp: main_def)
next
  case (Inr c')
  obtain r fs' where w: "write_sprite c' (a_output a) fs = (r, fs')"
    by (cases "write_sprite c' (a_output a) fs")
  show ?thesis
  proof (cases r)
    case None
    with assms Inr w show ?thesis by (simp add: main_def)
  next
    case (Some e)
    with write_sprite_Some_error [of c' "a_output a" fs e fs'] w
    have "e = IOError \<or> e = StructError" by simp
    with assms Inr w Some show ?thesis by (auto simp: main_def)
  qed
qed

lemma zero_frames_load:
  "load lib zero_frames_args = Inr (init\<lparr>fps := 30, frames := [], width := 64, height := 64\<rparr>)"
  by (simp add: load_def zero_frames_args_def generate_test_pattern_def args_fps_def)

lemma empty_folder_rejected: "a_input a = FolderInput [] \<Longrightarrow> main lib a fs = (Some EmptyInput, fs)"
  by (simp add: main_def load_def load_from_folder_def)

lemma zero_frames_generate:
  "generate_palette flat_pil (init\<lparr>fps := 30, frames := [], width := 64, height := 64\<rparr>) =
     Inr \<lparr>frames = [], width = 64, height = 64, fps = 30, color_format = 0, compression = 0,
          palette = map (\<lambda>i. (0, 0, 0, 255)) [0..<256]\<rparr>"
proof -
  let ?c = "init\<lparr>fps := 30, frames := [], width := 64, height := 64\<rparr> :: rgb_image converter"
  have n: "Image_new (width ?c * int (length (frames ?c))) (height ?c) = Inr (black_rgb 0 64)"
    by (simp add: Image_new_def init_def black_rgb_def)
  have q: "quantize flat_pil (paste_frames (black_rgb 0 64) (width ?c) 0 (frames ?c))
      = Some (replicate 768 0, (\<lambda>x y. 0))"
    by (simp add: flat_pil_def)
  have i: "index_frames flat_pil
       \<lparr>img_size = img_size (paste_frames (black_rgb 0 64) (width ?c) 0 (frames ?c)),
        pix = (\<lambda>x y. 0), getpalette = replicate 768 0\<rparr> (frames ?c) = Inr []"
    by (simp add: init_def)
  have "generate_palette flat_pil ?c =
     Inr \<lparr>frames = [], width = width ?c, height = height ?c, fps = fps ?c,
          color_format = color_format ?c, compression = compression ?c,
          palette = map (\<lambda>i. (replicate 768 (0::byte) ! (i * 3), replicate 768 (0::byte) ! (i * 3 + 1),
                              replicate 768 (0::byte) ! (i * 3 + 2), 255)) [0..<256]\<rparr>"
    by (rule generate_palette_total [OF n q _ i]) simp
  moreover have "map (\<lambda>i. (replicate 768 (0::byte) ! (i * 3), replicate 768 (0::byte) ! (i * 3 + 1),
                              replicate 768 (0::byte) ! (i * 3 + 2), 255 :: byte)) [0..<256]
      = map (\<lambda>i. (0, 0, 0, 255)) [0..<256]"
    by (rule map_cong) auto
  ultimately show ?thesis
    by (simp add: init_def COLOR_FORMAT_INDEXED_8BIT_def COMPRESSION_NONE_def)
qed

lemma write_sprite_header_only:
  assumes "path \<notin> denied fs" and "header c = Inr h" and "free_space fs = length h"
    and "palette c \<noteq> []"
  shows "write_sprite c path fs
     = (Some IOError, fs\<lparr>files := (files fs)(path \<mapsto> h), free_space := 0\<rparr>)"
proof -
  from assms(4) obtain e es where p: "palette c = e # es" by (cases "palette c") auto
  obtain r g b a where e: "e = (r, g, b, a)" by (cases e)
  from assms(1-3) p e show ?thesis
    by (simp add: write_sprite_def open_wb_def write_header_def f_write_def write_palette_def)
qed

lemma folder_args_load:
  "load lib folder_args =
     Inr \<lparr>frames = [black_rgb 4 4, black_rgb 4 4, black_rgb 4 4], width = 4, height = 4, fps = 10,
          color_format = 0, compression = 0, palette = []\<rparr>"
  by (simp add: load_def folder_args_def load_from_folder_def args_fps_def init_def black_rgb_def
      COLOR_FORMAT_INDEXED_8BIT_def COMPRESSION_NONE_def)

lemma folder_args_generate:
  "\<exists>ps pal. generate_palette flat_pil
       \<lparr>frames = [black_rgb 4 4, black_rgb 4 4, black_rgb 4 4], width = 4, height = 4, fps = 10,
        color_format = 0, compression = 0, palette = []\<rparr>
     = Inr \<lparr>frames = ps, width = 4, height = 4, fps = 10, color_format = 0, compression = 0,
            palette = pal\<rparr> \<and> length ps = 3 \<and> length pal = 256"
proof -
  let ?c = "\<lparr>frames = [black_rgb 4 4, black_rgb 4 4, black_rgb 4 4], width = 4, height = 4,
             fps = 10, color_format = 0, compression = 0, palette = []\<rparr> :: rgb_image converter"
  let ?canvas = "black_rgb 12 4"
  let ?ix = "(\<lambda>x y. 0) :: nat \<Rightarrow> nat \<Rightarrow> byte"
  have n: "Image_new (width ?c * int (length (frames ?c))) (height ?c) = Inr ?canvas"
    by (simp add: Image_new_def black_rgb_def)
  have q: "quantize flat_pil (paste_frames ?canvas (width ?c) 0 (frames ?c))
      = Some (replicate 768 0, ?ix)"
    by (simp add: flat_pil_def)
  have "\<exists>ps. index_frames flat_pil
       \<lparr>img_size = img_size (paste_frames ?canvas (width ?c) 0 (frames ?c)),
        pix = ?ix, getpalette = replicate 768 0\<rparr> (frames ?c) = Inr ps \<and> length ps = 3"
    by (simp add: flat_pil_def)
  then obtain ps where i: "index_frames flat_pil
       \<lparr>img_size = img_size (paste_frames ?canvas (width ?c) 0 (frames ?c)),
        pix = ?ix, getpalette = replicate 768 0\<rparr> (frames ?c) = Inr ps" and l: "length ps = 3"
    by blast
  have "generate_palette flat_pil ?c =
     Inr \<lparr>frames = ps, width = width ?c, height = height ?c, fps = fps ?c,
          color_format = color_format ?c, compression = compression ?c,
          palette = map (\<lambda>i. (replicate 768 (0::byte) ! (i * 3), replicate 768 (0::byte) ! (i * 3 + 1),
                              replicate 768 (0::byte) ! (i * 3 + 2), 255)) [0..<256]\<rparr>"
    by (rule generate_palette_total [OF n q _ i]) simp
  with l show ?thesis by simp
qed

lemma folder_args_run:
  "main flat_pil folder_args tight_disk =
     (Some IOError,
      tight_disk\<lparr>files := (files tight_disk)(''out.spr'' \<mapsto>
                    [0x49, 0x4B, 0x4F, 0x44, 1, 0, 3, 0, 4, 0, 4, 0, 10, 0, 0] @ replicate 49 0),
                 free_space := 0\<rparr>)"
proof -
  from folder_args_generate obtain ps pal where
    g: "generate_palette flat_pil
       \<lparr>frames = [black_rgb 4 4, black_rgb 4 4, black_rgb 4 4], width = 4, height = 4, fps = 10,
        color_format = 0, compression = 0, palette = []\<rparr>
     = Inr \<lparr>frames = ps, width = 4, height = 4, fps = 10, color_format = 0, compression = 0,
            palette = pal\<rparr>" and l: "length ps = 3" "length pal = 256"
    by blast
  let ?c' = "\<lparr>frames = ps, width = 4, height = 4, fps = 10, color_format = 0, compression = 0,
            palette = pal\<rparr>"
  define h :: "byte list"
    where "h = [0x49, 0x4B, 0x4F, 0x44, 1, 0, 3, 0, 4, 0, 4, 0, 10, 0, 0] @ replicate 49 0"
  have o: "a_output folder_args = ''out.spr''" by (simp add: folder_args_def)
  have m: "main flat_pil folder_args tight_disk = write_sprite ?c' ''out.spr'' tight_disk"
    by (simp add: main_def folder_args_load g o)
  have hd: "header ?c' = Inr h"
    using l by (simp add: h_def header_def pack_I_def pack_H_def pack_B_def SPRITE_MAGIC_def)
  have lh: "length h = 64" by (simp add: h_def)
  have "write_sprite ?c' ''out.spr'' tight_disk
     = (Some IOError, tight_disk\<lparr>files := (files tight_disk)(''out.spr'' \<mapsto> h), free_space := 0\<rparr>)"
    by (rule write_sprite_header_only [OF _ hd]) (use l lh in \<open>auto simp: tight_disk_def\<close>)
  with m show ?thesis by (simp only: h_def)
qed

lemma mixed_folder_run:
  "main lib mixed_folder_args fs = (Some (DimensionMismatch 2 (8, 4)), fs)"
  by (simp add: main_def load_def mixed_folder_args_def mixed_folder_def load_from_folder_def
      black_rgb_def init_def)

section \<open>The claims\<close>

text \<open>
  C1. A container that \<^verbatim>\<open>write_sprite\<close> has written for a 256-entry palette and \<open>N\<close>
  indexed frames of width \<open>w\<close> and height \<open>h\<close> is the 64-byte header, then the 1024
  palette bytes, then the frames in order, one byte per pixel and row after row, with
  nothing in between: frame \<open>n\<close> occupies the \<open>w * h\<close> bytes from offset
  \<open>1088 + n * w * h\<close>, pixel \<open>(x, y)\<close> of it is at \<open>1088 + n * w * h + y * w + x\<close>, the
  file has \<open>1088 + N * w * h\<close> bytes, and bytes 6 and 7 hold \<open>N\<close>, little-endian.
  For three 4\<times>4 frames the file has 1136 bytes and the frame count reads 3.
\<close>

theorem container_layout:
  assumes ok: "write_sprite c output_path fs = (None, fs')"
    and pal: "length (palette c) = 256"
    and sz: "\<forall>f \<in> set (frames c). img_size f = (w, h)"
  shows "\<exists>hdr content.
      header c = Inr hdr \<and> length hdr = 64 \<and>
      length (concat (map pack_BBBB (palette c))) = 1024 \<and>
      files fs' output_path = Some content \<and>
      content = hdr @ concat (map pack_BBBB (palette c)) @ concat (map tobytes (frames c)) \<and>
      length content = 1088 + length (frames c) * w * h \<and>
      (\<forall>n < length (frames c).
         take (w * h) (drop (1088 + n * w * h) content) = tobytes (frames c ! n) \<and>
         (\<forall>y < h. \<forall>x < w. content ! (1088 + n * w * h + y * w + x) = pix (frames c ! n) x y)) \<and>
      le_value (take 2 (drop 6 content)) = length (frames c)"
proof -
  from write_sprite_None [OF ok] obtain hdr where
    h: "header c = Inr hdr" and f: "files fs' = (files fs)(output_path \<mapsto> sprite_bytes c hdr)"
    by blast
  let ?pal = "concat (map pack_BBBB (palette c))"
  let ?frs = "concat (map tobytes (frames c))"
  define content where "content = hdr @ ?pal @ ?frs"
  have lh: "length hdr = 64" by (rule header_length [OF h])
  have lp: "length ?pal = 1024" using pal by (simp add: length_concat_pack_BBBB)
  have lf: "length ?frs = length (frames c) * w * h" by (rule length_concat_tobytes [OF sz])
  have stored: "files fs' output_path = Some content"
    using f by (simp add: sprite_bytes_def content_def)
  have len: "length content = 1088 + length (frames c) * w * h"
    using lh lp lf by (simp add: content_def)
  have dr: "drop (1088 + k) content = drop k ?frs" for k
    using lh lp by (simp add: content_def)
  have chunks: "\<forall>b \<in> set (map tobytes (frames c)). length b = w * h"
    using sz by (auto simp: length_tobytes)
  have frame: "take (w * h) (drop (1088 + n * w * h) content) = tobytes (frames c ! n)"
    if n: "n < length (frames c)" for n
  proof -
    have "take (w * h) (drop (n * (w * h)) ?frs) = map tobytes (frames c) ! n"
      using chunks n by (intro concat_equal_chunks_take_drop) simp_all
    then show ?thesis using dr [of "n * w * h"] n by (simp add: mult.assoc)
  qed
  have pixel: "content ! (1088 + n * w * h + y * w + x) = pix (frames c ! n) x y"
    if n: "n < length (frames c)" and y: "y < h" and x: "x < w" for n y x
  proof -
    have s: "img_size (frames c ! n) = (w, h)" using sz n by simp
    have b: "y * w + x < w * h"
    proof -
      have "y * w + x < Suc y * w" using x by simp
      also have "\<dots> \<le> h * w" using y by (intro mult_le_mono1) simp
      finally show ?thesis by (simp add: mult.commute)
    qed
    have "tobytes (frames c ! n) ! (y * w + x) = pix (frames c ! n) x y"
      by (rule tobytes_nth [OF s y x])
    then have "take (w * h) (drop (1088 + n * w * h) content) ! (y * w + x) = pix (frames c ! n) x y"
      using frame [OF n] by simp
    moreover have "1088 + n * w * h \<le> length content"
    proof -
      have "n * (w * h) \<le> length (frames c) * (w * h)" using n by (intro mult_le_mono1) simp
      then show ?thesis using len by (simp add: mult.assoc)
    qed
    ultimately show ?thesis using b by (simp add: add.assoc)
  qed
  have cnt: "le_value (take 2 (drop 6 content)) = length (frames c)"
  proof -
    from h have r: "int (length (frames c)) < 2 ^ 16"
      by (auto simp: header_def pack_fields_Cons_Inr pack_H_def split: if_splits)
    have "take 2 (drop 6 content) =
        [word_of_int (int (length (frames c))), word_of_int (int (length (frames c)) div 2 ^ 8)]"
      using header_Inr [OF h] by (simp add: content_def)
    moreover have "unat (word_of_int (int N) :: byte) = N mod 256" for N
      by (simp add: unat_of_nat)
    moreover have "unat (word_of_int (int N div 2 ^ 8) :: byte) = (N div 256) mod 256" for N
    proof -
      have "int N div 2 ^ 8 = int (N div 256)" by (simp add: zdiv_int)
      then show ?thesis by (simp add: unat_of_nat)
    qed
    moreover have "N mod 256 + 256 * ((N div 256) mod 256) = N" if "N < 65536" for N :: nat
      using that by simp
    ultimately show ?thesis using r by simp
  qed
  from h lh lp stored len frame pixel cnt show ?thesis
    unfolding content_def by blast
qed

theorem container_layout_witness:
  "write_sprite example_converter ''out.spr'' empty_disk
     = (None, snd (write_sprite example_converter ''out.spr'' empty_disk)) \<and>
   length (palette example_converter) = 256 \<and>
   map img_size (frames example_converter) = [(4, 4), (4, 4), (4, 4)] \<and>
   (\<exists>content. files (snd (write_sprite example_converter ''out.spr'' empty_disk)) ''out.spr''
                 = Some content \<and>
      length content = 1136 \<and> le_value (take 2 (drop 6 content)) = 3)"
proof -
  have ok: "write_sprite example_converter ''out.spr'' empty_disk
     = (None, snd (write_sprite example_converter ''out.spr'' empty_disk))"
    using example_written by (simp add: prod_eq_iff)
  have pal: "length (palette example_converter) = 256" by (simp add: example_converter_def)
  have n: "length (frames example_converter) = 3" by (simp add: example_converter_def)
  from container_layout [OF ok pal example_frames_size] obtain content where
    "files (snd (write_sprite example_converter ''out.spr'' empty_disk)) ''out.spr'' = Some content"
    "length content = 1088 + length (frames example_converter) * 4 * 4"
    "le_value (take 2 (drop 6 content)) = length (frames example_converter)"
    by blast
  moreover have "map img_size (frames example_converter) = [(4, 4), (4, 4), (4, 4)]"
    by (simp add: example_converter_def black_frame_def)
  ultimately show ?thesis using n ok pal by simp
qed

text \<open>
  C2. The first four bytes of every container that \<^verbatim>\<open>write_sprite\<close> produces are
  49 4B 4F 44 (the characters I, K, O, D), which read as a little-endian 32-bit word give
  the magic constant 0x444F4B49; the two bytes at offset 4 are 01 00, the 16-bit
  little-endian version 1.
\<close>

theorem container_magic_version:
  assumes "write_sprite c output_path fs = (None, fs')"
  shows "\<exists>content. files fs' output_path = Some content \<and>
           take 4 content = [0x49, 0x4B, 0x4F, 0x44] \<and>
           take 4 content = map of_char ''IKOD'' \<and>
           int (le_value (take 4 content)) = SPRITE_MAGIC \<and>
           take 2 (drop 4 content) = [1, 0] \<and>
           le_value (take 2 (drop 4 content)) = 1"
proof -
  from write_sprite_None [OF assms] obtain h where
    h: "header c = Inr h" and f: "files fs' = (files fs)(output_path \<mapsto> sprite_bytes c h)"
    by blast
  from f have "files fs' output_path = Some (sprite_bytes c h)" by simp
  moreover from header_Inr [OF h]
  have "take 4 (sprite_bytes c h) = [0x49, 0x4B, 0x4F, 0x44]"
       "take 2 (drop 4 (sprite_bytes c h)) = [1, 0]"
    by (simp_all add: sprite_bytes_def)
  ultimately show ?thesis by (simp add: SPRITE_MAGIC_def)
qed

theorem container_magic_version_witness:
  "write_sprite example_converter ''out.spr'' empty_disk
     = (None, snd (write_sprite example_converter ''out.spr'' empty_disk)) \<and>
   (\<exists>content. files (snd (write_sprite example_converter ''out.spr'' empty_disk)) ''out.spr''
                 = Some content \<and>
      take 4 content = [0x49, 0x4B, 0x4F, 0x44] \<and> take 2 (drop 4 content) = [1, 0])"
proof -
  have ok: "write_sprite example_converter ''out.spr'' empty_disk
     = (None, snd (write_sprite example_converter ''out.spr'' empty_disk))"
    using example_written by (simp add: prod_eq_iff)
  from container_magic_version [OF ok] ok show ?thesis by blast
qed

text \<open>
  C5. The validator rejects every file that has fewer than four bytes or whose first four
  bytes are not 49 4B 4F 44; the four-byte file 49 4B 4F 44 is accepted and the four-byte
  file of zero bytes is rejected.
\<close>

theorem validator_magic:
  assumes "files fs filepath = Some buffer"
  shows "(length buffer < 4 \<or> take 4 buffer \<noteq> [0x49, 0x4B, 0x4F, 0x44]
            \<longrightarrow> \<not> validate_spr_file fs filepath) \<and>
         (buffer = [0x49, 0x4B, 0x4F, 0x44] \<longrightarrow> validate_spr_file fs filepath) \<and>
         (buffer = [0, 0, 0, 0] \<longrightarrow> \<not> validate_spr_file fs filepath)"
  using assms by (auto simp: validate_spr_file_def expected_magic_def Let_def)

theorem validator_magic_witness:
  "files sample_disk ''good.spr'' = Some [0x49, 0x4B, 0x4F, 0x44] \<and>
   files sample_disk ''zero.spr'' = Some [0, 0, 0, 0] \<and>
   files sample_disk ''short.spr'' = Some [0x49, 0x4B, 0x4F] \<and>
   validate_spr_file sample_disk ''good.spr'' \<and>
   \<not> validate_spr_file sample_disk ''zero.spr'' \<and>
   \<not> validate_spr_file sample_disk ''short.spr''"
proof -
  have g: "files sample_disk ''good.spr'' = Some [0x49, 0x4B, 0x4F, 0x44]"
    and z: "files sample_disk ''zero.spr'' = Some [0, 0, 0, 0]"
    and s: "files sample_disk ''short.spr'' = Some [0x49, 0x4B, 0x4F]"
    by (simp_all add: sample_disk_def)
  from validator_magic [OF g] validator_magic [OF z] validator_magic [OF s] g z s
  show ?thesis by simp
qed

text \<open>
  C3. Whenever \<^verbatim>\<open>generate_palette\<close> returns, the palette has exactly 256 entries, each
  with alpha 255, whatever the frames contain; the entries serialize to 1024 bytes, entry
  \<open>i\<close> at offset \<open>4 * i\<close>, and \<^verbatim>\<open>_write_palette\<close> appends exactly these bytes. It does
  return whenever the library's calls succeed and \<^verbatim>\<open>getpalette()\<close> has at least 768
  values, and entry \<open>i\<close> is then values \<open>3i\<close>, \<open>3i + 1\<close>, \<open>3i + 2\<close> and 255.
\<close>

theorem palette_complete:
  "(\<forall>c'. generate_palette lib c = Inr c' \<longrightarrow>
      length (palette c') = 256 \<and>
      (\<forall>(r, g, b, a) \<in> set (palette c'). a = 255) \<and>
      length (concat (map pack_BBBB (palette c'))) = 1024 \<and>
      (\<forall>i < 256. take 4 (drop (4 * i) (concat (map pack_BBBB (palette c'))))
                   = pack_BBBB (palette c' ! i)) \<and>
      (\<forall>path fs fs' old. files fs path = Some old \<and> write_palette c' path fs = (None, fs')
          \<longrightarrow> files fs' path = Some (old @ concat (map pack_BBBB (palette c'))))) \<and>
   (\<forall>canvas pd ix.
      Image_new (width c * int (length (frames c))) (height c) = Inr canvas \<and>
      quantize lib (paste_frames canvas (width c) 0 (frames c)) = Some (pd, ix) \<and>
      768 \<le> length pd \<and>
      (\<forall>q. \<forall>f \<in> set (frames c). quantize_to lib q f \<noteq> None)
      \<longrightarrow> (\<exists>c'. generate_palette lib c = Inr c' \<and>
             palette c' = map (\<lambda>i. (pd ! (i * 3), pd ! (i * 3 + 1), pd ! (i * 3 + 2), 255)) [0..<256]))"
proof (intro conjI allI impI)
  fix c' assume g: "generate_palette lib c = Inr c'"
  from generate_palette_Inr [OF g] obtain pd where "palette_loop pd [0..<256] = Inr (palette c')"
    by blast
  from palette_loop_Inr [OF this]
  have p: "palette c' = map (\<lambda>i. (pd ! (i * 3), pd ! (i * 3 + 1), pd ! (i * 3 + 2), 255)) [0..<256]" .
  then show l: "length (palette c') = 256" by simp
  from p show "\<forall>(r, g, b, a) \<in> set (palette c'). a = 255" by auto
  from l show "length (concat (map pack_BBBB (palette c'))) = 1024"
    by (simp add: length_concat_pack_BBBB)
  show "take 4 (drop (4 * i) (concat (map pack_BBBB (palette c')))) = pack_BBBB (palette c' ! i)"
    if "i < 256" for i
    using that l by (intro concat_pack_BBBB_entry) simp
  show "files fs' path = Some (old @ concat (map pack_BBBB (palette c')))"
    if "files fs path = Some old \<and> write_palette c' path fs = (None, fs')" for path fs fs' old
    using that write_each_None [of path "map pack_BBBB (palette c')" fs fs' old]
    by (simp add: write_palette_def)
next
  fix canvas pd ix
  assume a: "Image_new (width c * int (length (frames c))) (height c) = Inr canvas \<and>
      quantize lib (paste_frames canvas (width c) 0 (frames c)) = Some (pd, ix) \<and>
      768 \<le> length pd \<and>
      (\<forall>q. \<forall>f \<in> set (frames c). quantize_to lib q f \<noteq> None)"
  let ?pal = "map (\<lambda>i. (pd ! (i * 3), pd ! (i * 3 + 1), pd ! (i * 3 + 2), 255)) [0..<256]"
  let ?q = "\<lparr>img_size = img_size (paste_frames canvas (width c) 0 (frames c)),
             pix = ix, getpalette = pd\<rparr>"
  from a have "\<forall>i \<in> set [0..<256]. i * 3 + 2 < length pd" by auto
  from palette_loop_total [OF this] have pl: "palette_loop pd [0..<256] = Inr ?pal" .
  from a have "\<forall>f \<in> set (frames c). quantize_to lib ?q f \<noteq> None" by blast
  from index_frames_total [OF this] obtain ps where "index_frames lib ?q (frames c) = Inr ps" ..
  with a pl show "\<exists>c'. generate_palette lib c = Inr c' \<and> palette c' = ?pal"
    by (simp add: generate_palette_def Let_def)
qed

theorem palette_complete_witness:
  "Image_new (width loaded_converter * int (length (frames loaded_converter)))
     (height loaded_converter) = Inr (black_rgb 12 4) \<and>
   768 \<le> length (replicate 768 (0::byte)) \<and>
   (\<exists>c'. generate_palette flat_pil loaded_converter = Inr c' \<and>
      length (palette c') = 256 \<and>
      (\<forall>(r, g, b, a) \<in> set (palette c'). a = 255) \<and>
      length (concat (map pack_BBBB (palette c'))) = 1024)"
proof -
  let ?canvas = "black_rgb 12 4"
  let ?ix = "(\<lambda>x y. 0) :: nat \<Rightarrow> nat \<Rightarrow> byte"
  have n: "Image_new (width loaded_converter * int (length (frames loaded_converter)))
     (height loaded_converter) = Inr ?canvas"
    by (simp add: Image_new_def loaded_converter_def black_rgb_def)
  have q: "quantize flat_pil (paste_frames ?canvas (width loaded_converter) 0 (frames loaded_converter))
      = Some (replicate 768 0, ?ix)"
    by (simp add: flat_pil_def)
  have l: "768 \<le> length (replicate 768 (0::byte))" by simp
  have t: "\<forall>q. \<forall>f \<in> set (frames loaded_converter). quantize_to flat_pil q f \<noteq> None"
    by (simp add: flat_pil_def)
  note pc = palette_complete [of flat_pil loaded_converter]
  from pc [THEN conjunct2, rule_format, of ?canvas "replicate 768 0" ?ix] n q l t
  obtain c' where g: "generate_palette flat_pil loaded_converter = Inr c'" by blast
  from pc [THEN conjunct1, rule_format, OF g]
  have "length (palette c') = 256" "\<forall>(r, g, b, a) \<in> set (palette c'). a = 255"
    "length (concat (map pack_BBBB (palette c'))) = 1024"
    by simp_all
  with g n l show ?thesis by blast
qed

text \<open>
  C6. When some image of the folder differs in width or height from the first one,
  \<^verbatim>\<open>load_from_folder\<close> fails with \<open>DimensionMismatch\<close>, reporting the first such
  image, and the conversion command fails with that error and leaves the file system as
  it was, so no container is produced.
\<close>

theorem folder_dimension_mismatch:
  assumes "\<exists>i < length image_files. img_size (image_files ! i) \<noteq> img_size (image_files ! 0)"
  shows "\<exists>k < length image_files.
      img_size (image_files ! k) \<noteq> img_size (image_files ! 0) \<and>
      (\<forall>j < k. img_size (image_files ! j) = img_size (image_files ! 0)) \<and>
      load_from_folder image_files c = Inl (DimensionMismatch k (img_size (image_files ! k))) \<and>
      (\<forall>lib a fs. a_input a = FolderInput image_files \<longrightarrow>
         main lib a fs = (Some (DimensionMismatch k (img_size (image_files ! k))), fs))"
proof -
  have "\<exists>k < length image_files.
      img_size (image_files ! k) \<noteq> img_size (image_files ! 0) \<and>
      (\<forall>j < k. img_size (image_files ! j) = img_size (image_files ! 0)) \<and>
      (\<forall>c. load_from_folder image_files c = Inl (DimensionMismatch k (img_size (image_files ! k))))"
  proof -
    from load_from_folder_mismatch [OF assms, of c] obtain k where k: "k < length image_files"
      "img_size (image_files ! k) \<noteq> img_size (image_files ! 0)"
      "\<forall>j < k. img_size (image_files ! j) = img_size (image_files ! 0)" by blast
    have "load_from_folder image_files c' = Inl (DimensionMismatch k (img_size (image_files ! k)))" for c'
    proof -
      from load_from_folder_mismatch [OF assms, of c'] obtain k' where k': "k' < length image_files"
        "img_size (image_files ! k') \<noteq> img_size (image_files ! 0)"
        "\<forall>j < k'. img_size (image_files ! j) = img_size (image_files ! 0)"
        "load_from_folder image_files c' = Inl (DimensionMismatch k' (img_size (image_files ! k')))"
        by blast
      have "\<not> k < k'" using k(2) k'(3) by blast
      moreover have "\<not> k' < k" using k'(2) k(3) by blast
      ultimately have "k' = k" by simp
      with k'(4) show ?thesis by (simp only:)
    qed
    then have "\<forall>c. load_from_folder image_files c
        = Inl (DimensionMismatch k (img_size (image_files ! k)))" ..
    with k show ?thesis by blast
  qed
  then obtain k where k: "k < length image_files"
      "img_size (image_files ! k) \<noteq> img_size (image_files ! 0)"
      "\<forall>j < k. img_size (image_files ! j) = img_size (image_files ! 0)"
      "\<And>c. load_from_folder image_files c = Inl (DimensionMismatch k (img_size (image_files ! k)))"
    by blast
  have "main lib a fs = (Some (DimensionMismatch k (img_size (image_files ! k))), fs)"
    if "a_input a = FolderInput image_files" for lib a fs
    using that k(4) by (simp add: main_def load_def)
  then have "\<forall>lib a fs. a_input a = FolderInput image_files \<longrightarrow>
      main lib a fs = (Some (DimensionMismatch k (img_size (image_files ! k))), fs)" by blast
  with k(1,2,3) k(4) [of c] show ?thesis by blast
qed

theorem folder_dimension_mismatch_witness:
  "img_size (mixed_folder ! 2) = (8, 4) \<and> img_size (mixed_folder ! 0) = (4, 4) \<and>
   load_from_folder mixed_folder init = Inl (DimensionMismatch 2 (8, 4))"
proof -
  have s: "img_size (mixed_folder ! 2) = (8, 4)" "img_size (mixed_folder ! 0) = (4, 4)"
    "img_size (mixed_folder ! 1) = (4, 4)" "length mixed_folder = 3"
    by (simp_all add: mixed_folder_def black_rgb_def)
  then have "\<exists>i < length mixed_folder. img_size (mixed_folder ! i) \<noteq> img_size (mixed_folder ! 0)"
    by (intro exI [of _ 2]) simp
  from folder_dimension_mismatch [OF this, of init] obtain k where k: "k < length mixed_folder"
    "img_size (mixed_folder ! k) \<noteq> img_size (mixed_folder ! 0)"
    "load_from_folder mixed_folder init = Inl (DimensionMismatch k (img_size (mixed_folder ! k)))"
    by blast
  from k(1,2) s have "k = 2"
    by (cases "k = 0"; cases "k = 1"; cases "k = 2") auto
  with k s show ?thesis by simp
qed

text \<open>
  C10. When a GIF is loaded and its frame rate can be derived, the converter's rate
  becomes the GIF's rate exactly when the configured rate is 30: a command line with
  \<^verbatim>\<open>--fps 30\<close> loads exactly as one without \<^verbatim>\<open>--fps\<close> and gets the GIF's rate, and any
  other requested rate is kept.
\<close>

theorem gif_fps_sentinel:
  assumes "a_input a = GifInput gif" and "gif_fps gif = Some g" and "load lib a = Inr c"
  shows "fps c = (if args_fps a = 30 then g else args_fps a) \<and>
         (a_fps a = None \<longrightarrow> fps c = g) \<and>
         (a_fps a = Some 30 \<longrightarrow> fps c = g) \<and>
         (\<forall>v. a_fps a = Some v \<and> v \<noteq> 30 \<longrightarrow> fps c = v) \<and>
         load lib (a\<lparr>a_fps := Some 30\<rparr>) = load lib (a\<lparr>a_fps := None\<rparr>)"
proof -
  from assms(1,3) have "load_from_gif lib gif
      (if a_width a \<noteq> 64 then Some (a_width a) else None)
      (if a_height a \<noteq> 64 then Some (a_height a) else None) (init\<lparr>fps := args_fps a\<rparr>) = Inr c"
    by (simp add: load_def)
  from load_from_gif_fps [OF this] assms(2)
  have "fps c = (if args_fps a = 30 then g else args_fps a)" by simp
  moreover have "load lib (a\<lparr>a_fps := Some 30\<rparr>) = load lib (a\<lparr>a_fps := None\<rparr>)"
    by (simp add: load_def args_fps_def Let_def cong: input.case_cong sum.case_cong)
  ultimately show ?thesis by (auto simp: args_fps_def)
qed

theorem gif_fps_sentinel_witness:
  "a_input gif_args = GifInput sample_gif \<and> gif_fps sample_gif = Some 25 \<and>
   a_fps gif_args = Some 30 \<and>
   (\<exists>c. load flat_pil gif_args = Inr c \<and> fps c = 25)"
proof -
  have i: "a_input gif_args = GifInput sample_gif" and f: "a_fps gif_args = Some 30"
    by (simp_all add: gif_args_def)
  have g: "gif_fps sample_gif = Some 25" by (simp add: gif_fps_def sample_gif_def)
  have "\<exists>c. load flat_pil gif_args = Inr c"
    by (simp add: load_def gif_args_def load_from_gif_def sample_gif_def truthy_def Let_def)
  then obtain c where l: "load flat_pil gif_args = Inr c" ..
  from gif_fps_sentinel [OF i g l] f have "fps c = 25" by simp
  with i g f l show ?thesis by blast
qed

text \<open>
  C7. A run on zero frames is rejected with \<open>EmptyInput\<close> only by \<^verbatim>\<open>load_from_folder\<close>
  (lemma \<open>empty_folder_rejected\<close>). The test-pattern source with \<^verbatim>\<open>--frames 0\<close> loads
  an empty frame list without error, \<^verbatim>\<open>generate_palette\<close> has no check of its own, and
  the run never fails with \<open>EmptyInput\<close>, whatever the imaging library does; with a
  library that quantizes the empty canvas, a 1088-byte container with frame count 0 is
  written.
\<close>

theorem zero_frames_not_rejected:
  "load lib zero_frames_args = Inr (init\<lparr>fps := 30, frames := [], width := 64, height := 64\<rparr>) \<and>
   fst (main lib zero_frames_args fs) \<noteq> Some EmptyInput \<and>
   fst (main flat_pil zero_frames_args empty_disk) = None \<and>
   map_option length (files (snd (main flat_pil zero_frames_args empty_disk)) ''out.spr'') = Some 1088 \<and>
   map_option (\<lambda>content. le_value (take 2 (drop 6 content)))
     (files (snd (main flat_pil zero_frames_args empty_disk)) ''out.spr'') = Some 0"
proof -
  let ?c' = "\<lparr>frames = [], width = 64, height = 64, fps = 30, color_format = 0, compression = 0,
          palette = map (\<lambda>i. (0, 0, 0, 255)) [0..<256]\<rparr> :: p_image converter"
  define h :: "byte list"
    where "h = [0x49, 0x4B, 0x4F, 0x44, 1, 0, 0, 0, 64, 0, 64, 0, 30, 0, 0] @ replicate 49 0"
  have o: "a_output zero_frames_args = ''out.spr''" by (simp add: zero_frames_args_def)
  have m: "main flat_pil zero_frames_args empty_disk = write_sprite ?c' ''out.spr'' empty_disk"
    by (simp add: main_def zero_frames_load zero_frames_generate o)
  have h: "header ?c' = Inr h"
    by (simp add: h_def header_def pack_I_def pack_H_def pack_B_def SPRITE_MAGIC_def)
  have l: "length (sprite_bytes ?c' h) = 1088"
    using length_sprite_bytes [of ?c' 0 0 h] by (simp add: h_def)
  have d: "''out.spr'' \<notin> denied empty_disk" "length (sprite_bytes ?c' h) \<le> free_space empty_disk"
    by (simp_all only: l) (simp_all add: empty_disk_def)
  have wn: "fst (write_sprite ?c' ''out.spr'' empty_disk) = None"
    by (rule write_sprite_succeeds [OF d(1) h d(2)])
  then have ok: "write_sprite ?c' ''out.spr'' empty_disk
      = (None, snd (write_sprite ?c' ''out.spr'' empty_disk))"
    by (simp add: prod_eq_iff)
  from write_sprite_None [OF ok] h
  have f: "files (snd (write_sprite ?c' ''out.spr'' empty_disk)) ''out.spr'' = Some (sprite_bytes ?c' h)"
    by simp
  have t: "take 2 (drop 6 (sprite_bytes ?c' h)) = [0, 0]" by (simp add: sprite_bytes_def h_def)
  have "fst (main flat_pil zero_frames_args empty_disk) = None" by (simp only: m wn)
  moreover have "map_option length
      (files (snd (main flat_pil zero_frames_args empty_disk)) ''out.spr'') = Some 1088"
    by (simp only: m f l option.map)
  moreover have "map_option (\<lambda>content. le_value (take 2 (drop 6 content)))
     (files (snd (main flat_pil zero_frames_args empty_disk)) ''out.spr'') = Some 0"
    by (simp only: m f t option.map) simp
  ultimately show ?thesis
    using zero_frames_load main_not_EmptyInput [OF zero_frames_load] by blast
qed

text \<open>
  C9. The claim that a failed run leaves no partial output fails: on a disk that accepts 64
  more bytes, converting three 4\<times>4 frames raises \<open>IOError\<close> at the first palette
  entry, and the 64 header bytes stay at the output path, where no file was before.
\<close>

theorem partial_file_counterexample:
  "fst (main flat_pil folder_args tight_disk) = Some IOError \<and>
   files tight_disk ''out.spr'' = None \<and>
   map_option length (files (snd (main flat_pil folder_args tight_disk)) ''out.spr'') = Some 64"
  by (simp add: folder_args_run) (simp add: tight_disk_def)

text \<open>
  C9, as amended. A run that fails with \<open>EmptyInput\<close> or \<open>DimensionMismatch\<close> leaves
  the file system as it was. A run that fails with \<open>IOError\<close> either leaves the file
  system as it was (the output could not be opened) or leaves at the output path the
  bytes written before the failing write: a proper prefix of the container, which nothing
  removes.
\<close>

theorem failed_run_output:
  assumes "main lib a fs = (Some e, fs')"
  shows "(e = EmptyInput \<or> (\<exists>idx sz. e = DimensionMismatch idx sz) \<longrightarrow> fs' = fs) \<and>
         (e = IOError \<longrightarrow>
            fs' = fs \<or>
            (\<exists>c c' h bs. load lib a = Inr c \<and> generate_palette lib c = Inr c' \<and>
               header c' = Inr h \<and> files fs' = (files fs)(a_output a \<mapsto> bs) \<and>
               prefix bs (sprite_bytes c' h) \<and> length bs < length (sprite_bytes c' h)))"
proof (cases "load lib a")
  case (Inl e')
  with assms show ?thesis by (auto simp: main_def)
next
  case (Inr c)
  show ?thesis
  proof (cases "generate_palette lib c")
    case (Inl e')
    with Inr assms show ?thesis by (auto simp: main_def)
  next
    case c': (Inr c')
    with Inr assms have w: "write_sprite c' (a_output a) fs = (Some e, fs')"
      by (simp add: main_def)
    from write_sprite_Some [OF w] Inr c' show ?thesis by auto
  qed
qed

theorem failed_run_output_witness:
  "main flat_pil empty_folder_args tight_disk = (Some EmptyInput, tight_disk) \<and>
   main flat_pil mixed_folder_args tight_disk = (Some (DimensionMismatch 2 (8, 4)), tight_disk) \<and>
   main flat_pil folder_args tight_disk
     = (Some IOError, snd (main flat_pil folder_args tight_disk)) \<and>
   snd (main flat_pil folder_args tight_disk) \<noteq> tight_disk \<and>
   (\<exists>bs. files (snd (main flat_pil folder_args tight_disk)) = (files tight_disk)(''out.spr'' \<mapsto> bs))"
proof -
  have e: "main flat_pil empty_folder_args tight_disk = (Some EmptyInput, tight_disk)"
    by (rule empty_folder_rejected) (simp add: empty_folder_args_def)
  have i: "main flat_pil folder_args tight_disk
     = (Some IOError, snd (main flat_pil folder_args tight_disk))"
    by (simp add: folder_args_run)
  have "files (snd (main flat_pil folder_args tight_disk)) ''out.spr'' \<noteq> files tight_disk ''out.spr''"
    by (simp add: folder_args_run) (simp add: tight_disk_def)
  then have n: "snd (main flat_pil folder_args tight_disk) \<noteq> tight_disk"
    by auto
  have o: "a_output folder_args = ''out.spr''" by (simp add: folder_args_def)
  note d = mixed_folder_run [of flat_pil tight_disk]
  from failed_run_output [OF e] failed_run_output [OF d] failed_run_output [OF i] n o
  have "\<exists>bs. files (snd (main flat_pil folder_args tight_disk)) = (files tight_disk)(''out.spr'' \<mapsto> bs)"
    by auto
  with e d i n show ?thesis by blast
qed

end
